theory Spec2Isabelle
  imports Complex_Main "HOL-Library.AList" "HOL-Library.Sublist" "HOL-Library.Multiset"
begin

section \<open>Client side: the records of the storefront\<close>

text \<open>
  JavaScript numbers. Finite values are modelled as exact rationals: the rounding of
  IEEE doubles is not modelled. \<open>NaN\<close> is a value of its own where the code can
  receive it: every caller of \<open>addToCart\<close> passes \<open>parseInt(selectedSize)\<close>, which is
  \<open>NaN\<close> for a size label that does not start with a digit.
\<close>

datatype number = Num rat | NaN

text \<open>The operator \<open>===\<close> on two numbers: \<open>NaN\<close> is equal to nothing, itself included.\<close>

fun strict_eq :: "number \<Rightarrow> number \<Rightarrow> bool" where
  "strict_eq (Num a) (Num b) = (a = b)"
| "strict_eq _ _ = False"

text \<open>\<open>interface Product\<close> of StoreFront (the field \<open>id\<close> is written \<open>id'\<close>).\<close>

record Product =
  id' :: string
  name :: string
  description :: string
  price :: rat
  category :: string
  sizes :: "number list"
  colors :: "string list"
  imageUrl :: string
  stock :: int
  featured :: bool

text \<open>\<open>interface CartItem extends Product\<close>.\<close>

record CartItem = Product +
  quantity :: int
  selectedSize :: number
  selectedColor :: string

text \<open>
  \<open>interface Category\<close>. The field \<open>subcategories\<close> is \<open>None\<close> when the JSON object
  has no such property (or \<open>null\<close>): the only values for which \<open>c.subcategories || [c.name]\<close>
  takes its right-hand side, an array being truthy even when it is empty.
\<close>

record Category =
  id' :: string
  name :: string
  description :: string
  active :: bool
  subcategories :: "string list option"

text \<open>\<open>interface DeliveryLocation\<close> of CheckoutDialog.\<close>

record DeliveryLocation =
  id' :: string
  name :: string
  cost :: rat
  region :: string

section \<open>CheckoutDialog: the amounts of an order\<close>

text \<open>\<open>cart.reduce((sum, item) => sum + item.price * item.quantity, 0)\<close>\<close>

definition subtotal :: "CartItem list \<Rightarrow> rat" where
  "subtotal cart = fold (\<lambda>item sum. sum + Product.price item * of_int (quantity item)) cart 0"

text \<open>\<open>selectedLocation?.cost || 0\<close>: no location selected, or a falsy cost, give 0.\<close>

definition deliveryCost :: "DeliveryLocation option \<Rightarrow> rat" where
  "deliveryCost selectedLocation =
     (case selectedLocation of
        None \<Rightarrow> 0
      | Some l \<Rightarrow> if cost l \<noteq> 0 then cost l else 0)"

text \<open>\<open>subtotal * 0.08\<close>\<close>

definition tax :: "CartItem list \<Rightarrow> rat" where
  "tax cart = subtotal cart * (8 / 100)"

text \<open>\<open>subtotal + deliveryCost + tax\<close>\<close>

definition total :: "CartItem list \<Rightarrow> DeliveryLocation option \<Rightarrow> rat" where
  "total cart selectedLocation = subtotal cart + deliveryCost selectedLocation + tax cart"

section \<open>StoreFront: the cart\<close>

text \<open>The predicate that \<open>addToCart\<close> gives to both \<open>find\<close> and \<open>map\<close>.\<close>

definition same_line :: "string \<Rightarrow> number \<Rightarrow> string \<Rightarrow> CartItem \<Rightarrow> bool" where
  "same_line productId size' color item \<longleftrightarrow>
     Product.id' item = productId \<and> strict_eq (selectedSize item) size' \<and> selectedColor item = color"

definition addToCart :: "Product \<Rightarrow> number \<Rightarrow> string \<Rightarrow> CartItem list \<Rightarrow> CartItem list" where
  "addToCart product size' color prevCart =
     (case find (same_line (Product.id' product) size' color) prevCart of
        Some existingItem \<Rightarrow>
          map (\<lambda>item. if same_line (Product.id' product) size' color item
                       then item\<lparr>quantity := quantity item + 1\<rparr> else item) prevCart
      | None \<Rightarrow>
          prevCart @ [Product.extend product (CartItem.fields 1 size' color)])"

section \<open>StoreFront: filtering and sorting the products\<close>

text \<open>
  \<open>Array.prototype.sort(compareFn)\<close>. ECMAScript requires the sort to be stable, and for
  a consistent comparator the stable sorted order is unique; this insertion sort computes
  it. An element stays in front of the elements it compares equal to (\<open>compareFn\<close> gives 0)
  and moves behind those it compares greater than.
\<close>

fun insert_sorted :: "('a \<Rightarrow> 'a \<Rightarrow> rat) \<Rightarrow> 'a \<Rightarrow> 'a list \<Rightarrow> 'a list" where
  "insert_sorted compareFn x [] = [x]"
| "insert_sorted compareFn x (y # ys) =
     (if compareFn x y \<le> 0 then x # y # ys else y # insert_sorted compareFn x ys)"

definition array_sort :: "('a \<Rightarrow> 'a \<Rightarrow> rat) \<Rightarrow> 'a list \<Rightarrow> 'a list" where
  "array_sort compareFn xs = foldr (insert_sorted compareFn) xs []"

text \<open>
  A comparator is consistent on a set of values when it compares them as some key
  compares: on a finite set that is what ECMAScript calls a consistent comparator.
\<close>

definition consistent_comparator :: "('a \<Rightarrow> 'a \<Rightarrow> rat) \<Rightarrow> 'a set \<Rightarrow> bool" where
  "consistent_comparator compareFn S \<longleftrightarrow>
     (\<exists>key :: 'a \<Rightarrow> int. \<forall>a \<in> S. \<forall>b \<in> S.
        (compareFn a b < 0 \<longleftrightarrow> key a < key b) \<and> (0 < compareFn a b \<longleftrightarrow> key b < key a))"

text \<open>
  What ECMAScript requires of an engine's \<open>Array.prototype.sort\<close>: with a comparator
  that is consistent on the elements the result is the stable sorted order. With any
  other comparator the order is implementation-defined, and nothing is required.
\<close>

definition ecmascript_sort :: "(('a \<Rightarrow> 'a \<Rightarrow> rat) \<Rightarrow> 'a list \<Rightarrow> 'a list) \<Rightarrow> bool" where
  "ecmascript_sort srt \<longleftrightarrow>
     (\<forall>compareFn xs. consistent_comparator compareFn (set xs) \<longrightarrow>
        srt compareFn xs = array_sort compareFn xs)"

text \<open>
  The sort of the engine V8, on which the server runs, for an array of fewer than 64
  elements: \<open>CountAndMakeRun\<close> takes the longest run at the front that does not
  descend, or that descends strictly and is then reversed; \<open>BinaryInsertionSort\<close>
  inserts each later element by binary search, behind the elements it does not compare
  less than. (A longer array V8 cuts into several such runs and merges them; here the
  one run is extended over the whole array.)
\<close>

fun extend_run :: "('a \<Rightarrow> 'a \<Rightarrow> rat) \<Rightarrow> bool \<Rightarrow> 'a \<Rightarrow> 'a list \<Rightarrow> nat" where
  "extend_run compareFn isDescending previousElement [] = 0"
| "extend_run compareFn isDescending previousElement (currentElement # rest) =
     (if (if isDescending then compareFn currentElement previousElement \<ge> 0
          else compareFn currentElement previousElement < 0)
      then 0
      else Suc (extend_run compareFn isDescending currentElement rest))"

fun count_and_make_run :: "('a \<Rightarrow> 'a \<Rightarrow> rat) \<Rightarrow> 'a list \<Rightarrow> 'a list \<times> 'a list" where
  "count_and_make_run compareFn (elementHigh # elementLow # rest) =
     (let isDescending = compareFn elementLow elementHigh < 0;
          runLength = 2 + extend_run compareFn isDescending elementLow rest;
          run = take runLength (elementHigh # elementLow # rest)
      in (if isDescending then rev run else run, drop runLength (elementHigh # elementLow # rest)))"
| "count_and_make_run compareFn xs = (xs, [])"

function find_slot :: "('a \<Rightarrow> 'a \<Rightarrow> rat) \<Rightarrow> 'a \<Rightarrow> 'a list \<Rightarrow> nat \<Rightarrow> nat \<Rightarrow> nat" where
  "find_slot compareFn pivot workArray left right =
     (if left < right
      then (let mid = left + (right - left) div 2
            in if compareFn pivot (workArray ! mid) < 0
               then find_slot compareFn pivot workArray left mid
               else find_slot compareFn pivot workArray (mid + 1) right)
      else left)"
  by pat_completeness auto
termination
  by (relation "measure (\<lambda>(compareFn, pivot, workArray, left, right). right - left)") auto

declare find_slot.simps [simp del]

definition binary_insert :: "('a \<Rightarrow> 'a \<Rightarrow> rat) \<Rightarrow> 'a \<Rightarrow> 'a list \<Rightarrow> 'a list" where
  "binary_insert compareFn pivot sorted_part =
     (let left = find_slot compareFn pivot sorted_part 0 (length sorted_part)
      in take left sorted_part @ pivot # drop left sorted_part)"

definition v8_sort :: "('a \<Rightarrow> 'a \<Rightarrow> rat) \<Rightarrow> 'a list \<Rightarrow> 'a list" where
  "v8_sort compareFn xs =
     (case count_and_make_run compareFn xs of
        (run, remaining) \<Rightarrow> fold (binary_insert compareFn) remaining run)"

text \<open>\<open>String.prototype.includes\<close>: the argument occurs as a contiguous part.\<close>

definition includes_str :: "string \<Rightarrow> string \<Rightarrow> bool" where
  "includes_str s searchString \<longleftrightarrow> sublist searchString s"

text \<open>\<open>categories.flatMap(c => c.subcategories || [c.name])\<close>\<close>

definition activeSubcategories :: "Category list \<Rightarrow> string list" where
  "activeSubcategories categories =
     concat (map (\<lambda>c. case subcategories c of Some subs \<Rightarrow> subs | None \<Rightarrow> [Category.name c])
               categories)"

text \<open>The comparator of the sort mode \<open>featured\<close>.\<close>

definition featured_compare :: "Product \<Rightarrow> Product \<Rightarrow> rat" where
  "featured_compare a b =
     (if featured a \<and> \<not> featured b then - 1
      else if \<not> featured a \<and> featured b then 1
      else 0)"

text \<open>
  The four filters of \<open>filterAndSortProducts\<close>, before the sort. \<open>toLowerCase\<close> is
  the runtime's \<open>String.prototype.toLowerCase\<close>, taken as a parameter.
\<close>

definition filterProducts ::
  "(string \<Rightarrow> string) \<Rightarrow> Product list \<Rightarrow> Category list \<Rightarrow> string \<Rightarrow> string \<Rightarrow> rat \<times> rat
     \<Rightarrow> Product list" where
  "filterProducts toLowerCase products categories searchQuery categoryFilter priceRange =
     (let filtered0 = filter (\<lambda>p. Product.category p \<in> set (activeSubcategories categories)) products;
          filtered1 =
            (if searchQuery \<noteq> []
             then filter (\<lambda>p. includes_str (toLowerCase (Product.name p)) (toLowerCase searchQuery)
                              \<or> includes_str (toLowerCase (Product.description p)) (toLowerCase searchQuery)
                              \<or> includes_str (toLowerCase (Product.category p)) (toLowerCase searchQuery))
                         filtered0
             else filtered0);
          filtered2 =
            (if categoryFilter \<noteq> ''all''
             then filter (\<lambda>p. Product.category p = categoryFilter) filtered1
             else filtered1)
      in filter (\<lambda>p. Product.price p \<ge> fst priceRange \<and> Product.price p \<le> snd priceRange) filtered2)"

text \<open>
  \<open>filterAndSortProducts\<close>: the list it gives to \<open>setFilteredProducts\<close>.
  \<open>localeCompare\<close> is the runtime's \<open>String.prototype.localeCompare\<close>, a parameter.
\<close>

definition filterAndSortProducts ::
  "(string \<Rightarrow> string) \<Rightarrow> (string \<Rightarrow> string \<Rightarrow> int) \<Rightarrow> Product list \<Rightarrow> Category list
     \<Rightarrow> string \<Rightarrow> string \<Rightarrow> string \<Rightarrow> rat \<times> rat \<Rightarrow> Product list" where
  "filterAndSortProducts toLowerCase localeCompare products categories searchQuery categoryFilter
       sortBy priceRange =
     (let filtered = filterProducts toLowerCase products categories searchQuery categoryFilter priceRange
      in if sortBy = ''price-low''
           then array_sort (\<lambda>a b. Product.price a - Product.price b) filtered
         else if sortBy = ''price-high''
           then array_sort (\<lambda>a b. Product.price b - Product.price a) filtered
         else if sortBy = ''name''
           then array_sort (\<lambda>a b. of_int (localeCompare (Product.name a) (Product.name b))) filtered
         else if sortBy = ''featured''
           then array_sort featured_compare filtered
         else filtered)"

section \<open>Server side: JSON values and the key-value store\<close>

text \<open>
  The values of request bodies, responses and stored records. An object is the list of
  its members in order; of two members of the same name the later one counts, as in
  \<open>JSON.parse\<close>. (JavaScript lists the keys that are array indices first; that is
  not modelled.)
\<close>

datatype json =
    JNull
  | JBool bool
  | JNum rat
  | JStr string
  | JArr "json list"
  | JObj "(string \<times> json) list"

text \<open>JavaScript truthiness, as \<open>!x\<close> and \<open>x || y\<close> use it.\<close>

fun truthy :: "json \<Rightarrow> bool" where
  "truthy JNull = False"
| "truthy (JBool b) = b"
| "truthy (JNum n) = (n \<noteq> 0)"
| "truthy (JStr s) = (s \<noteq> [])"
| "truthy (JArr xs) = True"
| "truthy (JObj fs) = True"

text \<open>A value that may be \<open>undefined\<close> (\<open>None\<close>), which is falsy.\<close>

definition truthy_opt :: "json option \<Rightarrow> bool" where
  "truthy_opt v = (case v of None \<Rightarrow> False | Some x \<Rightarrow> truthy x)"

text \<open>
  Reading a named property, \<open>None\<close> for \<open>undefined\<close>. It is used for the names
  of the fields of records (\<open>id\<close>, \<open>active\<close>, \<open>createdAt\<close>, \<open>name\<close>, ...) only,
  which arrays, strings, numbers and booleans do not have.
\<close>

fun property :: "json \<Rightarrow> string \<Rightarrow> json option" where
  "property (JObj fs) k = map_of (rev fs) k"
| "property _ k = None"

text \<open>The decimal digits of an array index, as a property key.\<close>

definition digit_char :: "nat \<Rightarrow> char" where
  "digit_char d = ''0123456789'' ! (d mod 10)"

function string_of_nat :: "nat \<Rightarrow> string" where
  "string_of_nat n =
     (if n < 10 then [digit_char n]
      else string_of_nat (n div 10) @ [digit_char (n mod 10)])"
  by pat_completeness auto
termination
  by (relation "measure (\<lambda>n. n)") auto

declare string_of_nat.simps [simp del]

text \<open>
  The own enumerable properties that an object spread \<open>{...v}\<close> copies: the properties
  of an object, the indexed elements of an array, the indexed characters of a string,
  nothing for the other values.
\<close>

fun spread :: "json \<Rightarrow> (string \<times> json) list" where
  "spread (JObj fs) = fs"
| "spread (JArr xs) = zip (map string_of_nat [0..<length xs]) xs"
| "spread (JStr s) = zip (map string_of_nat [0..<length s]) (map (\<lambda>c. JStr [c]) s)"
| "spread v = []"

text \<open>The value that a spread copies under the key \<open>k\<close>, if any.\<close>

definition own :: "json \<Rightarrow> string \<Rightarrow> json option" where
  "own v k = map_of (rev (spread v)) k"

text \<open>
  The spread \<open>...v\<close> inside an object literal: each property is defined on the
  object built so far, a key that is there keeps its place and takes the new value.
\<close>

definition assign :: "(string \<times> json) list \<Rightarrow> json \<Rightarrow> (string \<times> json) list" where
  "assign target v = fold (\<lambda>kv. AList.update (fst kv) (snd kv)) (spread v) target"

text \<open>
  Modelled from the spec: the module \<open>kv_store.tsx\<close> (\<open>get\<close>, \<open>set\<close>, \<open>del\<close>,
  \<open>getByPrefix\<close>) is not among the sources. The spec describes an external key-value
  store addressed by string keys with get, set and prefix scan; \<open>set\<close> replaces the
  value of a key it has, \<open>get\<close> of a key it has not is \<open>undefined\<close>.
\<close>

type_synonym kv_store = "(string \<times> json) list"

definition kv_get :: "string \<Rightarrow> kv_store \<Rightarrow> json option" where
  "kv_get key st = map_of st key"

definition kv_set :: "string \<Rightarrow> json \<Rightarrow> kv_store \<Rightarrow> kv_store" where
  "kv_set key v st = AList.update key v st"

definition kv_del :: "string \<Rightarrow> kv_store \<Rightarrow> kv_store" where
  "kv_del key st = AList.delete key st"

definition kv_getByPrefix :: "string \<Rightarrow> kv_store \<Rightarrow> json list" where
  "kv_getByPrefix pre st = map snd (filter (\<lambda>kv. prefix pre (fst kv)) st)"

section \<open>Server side: requests, responses and the identity provider\<close>

text \<open>\<open>c.json(body)\<close> answers with status 200, \<open>c.json(body, status)\<close> with the status given.\<close>

record response =
  status :: nat
  body :: json

definition c_json :: "json \<Rightarrow> nat \<Rightarrow> response" where
  "c_json b s = \<lparr>status = s, body = b\<rparr>"

text \<open>The answer of \<open>supabase.auth.getUser\<close>: \<open>data.user\<close> (\<open>None\<close> for null) and \<open>error\<close>.\<close>

record auth_response =
  user :: "json option"
  error :: "string option"

text \<open>
  What a handler takes from outside the program: the identity provider, the \<open>n\<close>-th
  result of \<open>crypto.randomUUID()\<close> and of \<open>new Date().toISOString()\<close> during the
  request (counted from 0), \<open>new Date(v).getTime()\<close> (\<open>None\<close> for \<open>NaN\<close>), the
  string conversion of a template literal for a value that is not a string, and the
  engine's \<open>Array.prototype.sort\<close> (the field \<open>sort\<close> is written \<open>sort'\<close>), whose
  order is the engine's own when the comparator is not consistent.
\<close>

record env =
  getUser :: "string option \<Rightarrow> auth_response"
  randomUUID :: "nat \<Rightarrow> string"
  toISOString :: "nat \<Rightarrow> string"
  getTime :: "json option \<Rightarrow> int option"
  toString :: "json \<Rightarrow> string"
  sort' :: "(json \<Rightarrow> json \<Rightarrow> rat) \<Rightarrow> json list \<Rightarrow> json list"

text \<open>\<open>String.prototype.split\<close> with a separator of one character.\<close>

fun split :: "char \<Rightarrow> string \<Rightarrow> string list" where
  "split sep [] = [[]]"
| "split sep (c # cs) =
     (if c = sep then [] # split sep cs
      else (case split sep cs of [] \<Rightarrow> [[c]] | w # ws \<Rightarrow> (c # w) # ws))"

text \<open>Indexing an array: \<open>undefined\<close> out of range.\<close>

definition at_index :: "'a list \<Rightarrow> nat \<Rightarrow> 'a option" where
  "at_index xs i = (if i < length xs then Some (xs ! i) else None)"

text \<open>\<open>c.req.header('Authorization')?.split(' ')[1]\<close>\<close>

definition accessToken :: "string option \<Rightarrow> string option" where
  "accessToken authorization =
     (case authorization of None \<Rightarrow> None | Some h \<Rightarrow> at_index (split CHR '' '' h) 1)"

text \<open>The test \<open>!user || authError\<close> after \<open>getUser(accessToken)\<close>.\<close>

definition unauthorized :: "env \<Rightarrow> string option \<Rightarrow> bool" where
  "unauthorized e authorization \<longleftrightarrow>
     (let r = getUser e (accessToken authorization) in user r = None \<or> error r \<noteq> None)"

definition error_body :: "string \<Rightarrow> json" where
  "error_body msg = JObj [(''error'', JStr msg)]"

definition respond_401 :: response where
  "respond_401 = c_json (error_body ''Unauthorized'') 401"

text \<open>A template literal \<open>`prefix${v}`\<close>.\<close>

fun template :: "env \<Rightarrow> string \<Rightarrow> json \<Rightarrow> string" where
  "template e pre (JStr s) = pre @ s"
| "template e pre v = pre @ toString e v"

section \<open>Server side: the handlers\<close>

text \<open>
  A handler takes the \<open>Authorization\<close> header (\<open>None\<close> when absent), the body as
  \<open>c.req.json()\<close> gives it (\<open>None\<close> when it throws, which the handler's \<open>catch\<close>
  answers with 500) and the store, and returns the response and the store after it.
\<close>

text \<open>\<open>{...v, id, createdAt: t0, updatedAt: t1}\<close>\<close>

definition with_id_created_updated :: "json \<Rightarrow> string \<Rightarrow> string \<Rightarrow> string \<Rightarrow> json" where
  "with_id_created_updated v i t0 t1 =
     JObj (AList.update ''updatedAt'' (JStr t1)
            (AList.update ''createdAt'' (JStr t0)
              (AList.update ''id'' (JStr i) (assign [] v))))"

text \<open>\<open>{...existing, ...updates, id, updatedAt: t}\<close>\<close>

definition merged_record :: "json \<Rightarrow> json \<Rightarrow> string \<Rightarrow> string \<Rightarrow> json" where
  "merged_record existing updates i t =
     JObj (AList.update ''updatedAt'' (JStr t)
            (AList.update ''id'' (JStr i)
              (assign (assign [] existing) updates)))"

text \<open>\<open>app.post('/products')\<close>\<close>

definition products_post :: "env \<Rightarrow> string option \<Rightarrow> json option \<Rightarrow> kv_store \<Rightarrow> response \<times> kv_store" where
  "products_post e authorization reqBody st =
     (if unauthorized e authorization then (respond_401, st)
      else case reqBody of
        None \<Rightarrow> (c_json (error_body ''Failed to create product'') 500, st)
      | Some product \<Rightarrow>
          (let i = randomUUID e 0;
               newProduct = with_id_created_updated product i (toISOString e 0) (toISOString e 1)
           in (c_json (JObj [(''product'', newProduct)]) 200, kv_set (''product:'' @ i) newProduct st)))"

text \<open>\<open>app.put('/products/:id')\<close>\<close>

definition products_put ::
  "env \<Rightarrow> string option \<Rightarrow> string \<Rightarrow> json option \<Rightarrow> kv_store \<Rightarrow> response \<times> kv_store" where
  "products_put e authorization i reqBody st =
     (if unauthorized e authorization then (respond_401, st)
      else case reqBody of
        None \<Rightarrow> (c_json (error_body ''Failed to update product'') 500, st)
      | Some updates \<Rightarrow>
          (case kv_get (''product:'' @ i) st of
             None \<Rightarrow> (c_json (error_body ''Product not found'') 404, st)
           | Some existing \<Rightarrow>
               if \<not> truthy existing then (c_json (error_body ''Product not found'') 404, st)
               else (let updatedProduct = merged_record existing updates i (toISOString e 0)
                     in (c_json (JObj [(''product'', updatedProduct)]) 200,
                         kv_set (''product:'' @ i) updatedProduct st))))"

text \<open>\<open>app.delete('/products/:id')\<close>\<close>

definition products_delete :: "env \<Rightarrow> string option \<Rightarrow> string \<Rightarrow> kv_store \<Rightarrow> response \<times> kv_store" where
  "products_delete e authorization i st =
     (if unauthorized e authorization then (respond_401, st)
      else (c_json (JObj [(''success'', JBool True)]) 200, kv_del (''product:'' @ i) st))"


text \<open>
  \<open>app.post('/upload-image')\<close>. The form data and the object store are outside the
  program: \<open>formData\<close> is \<open>None\<close> when \<open>c.req.formData()\<close> throws and \<open>Some None\<close>
  when the form has no \<open>file\<close>; \<open>uploadError\<close> says whether the upload failed and
  \<open>signedUrl\<close> is \<open>signedUrlData?.signedUrl\<close>. The handler does not touch the store.
\<close>

definition upload_image ::
  "env \<Rightarrow> string option \<Rightarrow> 'f option option \<Rightarrow> bool \<Rightarrow> string option \<Rightarrow> kv_store
     \<Rightarrow> response \<times> kv_store" where
  "upload_image e authorization formData uploadError signedUrl st =
     (if unauthorized e authorization then (respond_401, st)
      else case formData of
        None \<Rightarrow> (c_json (error_body ''Failed to upload image'') 500, st)
      | Some None \<Rightarrow> (c_json (error_body ''No file provided'') 400, st)
      | Some (Some file) \<Rightarrow>
          if uploadError then (c_json (error_body ''Failed to upload image'') 500, st)
          else (c_json (JObj [(''imageUrl'', JStr (case signedUrl of None \<Rightarrow> [] | Some u \<Rightarrow> u))]) 200, st))"

text \<open>\<open>app.post('/delivery-locations')\<close>: \<open>{...location, id}\<close>\<close>

definition delivery_locations_post ::
  "env \<Rightarrow> string option \<Rightarrow> json option \<Rightarrow> kv_store \<Rightarrow> response \<times> kv_store" where
  "delivery_locations_post e authorization reqBody st =
     (if unauthorized e authorization then (respond_401, st)
      else case reqBody of
        None \<Rightarrow> (c_json (error_body ''Failed to create delivery location'') 500, st)
      | Some location \<Rightarrow>
          (let i = randomUUID e 0;
               newLocation = JObj (AList.update ''id'' (JStr i) (assign [] location))
           in (c_json (JObj [(''location'', newLocation)]) 200, kv_set (''delivery:'' @ i) newLocation st)))"

text \<open>\<open>app.put('/delivery-locations/:id')\<close>: \<open>{...existing, ...updates, id}\<close>\<close>

definition delivery_locations_put ::
  "env \<Rightarrow> string option \<Rightarrow> string \<Rightarrow> json option \<Rightarrow> kv_store \<Rightarrow> response \<times> kv_store" where
  "delivery_locations_put e authorization i reqBody st =
     (if unauthorized e authorization then (respond_401, st)
      else case reqBody of
        None \<Rightarrow> (c_json (error_body ''Failed to update delivery location'') 500, st)
      | Some updates \<Rightarrow>
          (case kv_get (''delivery:'' @ i) st of
             None \<Rightarrow> (c_json (error_body ''Delivery location not found'') 404, st)
           | Some existing \<Rightarrow>
               if \<not> truthy existing then (c_json (error_body ''Delivery location not found'') 404, st)
               else (let updatedLocation =
                           JObj (AList.update ''id'' (JStr i)
                                  (assign (assign [] existing) updates))
                     in (c_json (JObj [(''location'', updatedLocation)]) 200,
                         kv_set (''delivery:'' @ i) updatedLocation st))))"

text \<open>\<open>app.delete('/delivery-locations/:id')\<close>\<close>

definition delivery_locations_delete ::
  "env \<Rightarrow> string option \<Rightarrow> string \<Rightarrow> kv_store \<Rightarrow> response \<times> kv_store" where
  "delivery_locations_delete e authorization i st =
     (if unauthorized e authorization then (respond_401, st)
      else (c_json (JObj [(''success'', JBool True)]) 200, kv_del (''delivery:'' @ i) st))"

text \<open>
  \<open>app.post('/orders')\<close>: \<open>{...order, id, status: 'pending', createdAt}\<close>. The handler
  has no authorization test.
\<close>

definition orders_post :: "env \<Rightarrow> json option \<Rightarrow> kv_store \<Rightarrow> response \<times> kv_store" where
  "orders_post e reqBody st =
     (case reqBody of
        None \<Rightarrow> (c_json (error_body ''Failed to create order'') 500, st)
      | Some order \<Rightarrow>
          (let i = randomUUID e 0;
               newOrder = JObj (AList.update ''createdAt'' (JStr (toISOString e 0))
                                 (AList.update ''status'' (JStr ''pending'')
                                   (AList.update ''id'' (JStr i) (assign [] order))))
           in (c_json (JObj [(''order'', newOrder)]) 200, kv_set (''order:'' @ i) newOrder st)))"

text \<open>
  The comparator of \<open>GET /orders\<close>:
  \<open>new Date(b.createdAt).getTime() - new Date(a.createdAt).getTime()\<close>. When a date is
  invalid the difference is \<open>NaN\<close>, which \<open>Array.prototype.sort\<close> reads as 0
  (ECMAScript, SortCompare). The comparator is then not consistent, and the order of the
  result is the engine's.
\<close>

definition orders_compare :: "env \<Rightarrow> json \<Rightarrow> json \<Rightarrow> rat" where
  "orders_compare e a b =
     (case (getTime e (property b ''createdAt''), getTime e (property a ''createdAt'')) of
        (Some tb, Some ta) \<Rightarrow> of_int (tb - ta)
      | _ \<Rightarrow> 0)"

text \<open>\<open>app.get('/orders')\<close>\<close>

definition orders_get :: "env \<Rightarrow> string option \<Rightarrow> kv_store \<Rightarrow> response" where
  "orders_get e authorization st =
     (if unauthorized e authorization then respond_401
      else c_json (JObj [(''orders'', JArr (sort' e (orders_compare e) (kv_getByPrefix ''order:'' st)))]) 200)"

text \<open>\<open>app.put('/orders/:id')\<close>\<close>

definition orders_put ::
  "env \<Rightarrow> string option \<Rightarrow> string \<Rightarrow> json option \<Rightarrow> kv_store \<Rightarrow> response \<times> kv_store" where
  "orders_put e authorization i reqBody st =
     (if unauthorized e authorization then (respond_401, st)
      else case reqBody of
        None \<Rightarrow> (c_json (error_body ''Failed to update order'') 500, st)
      | Some updates \<Rightarrow>
          (case kv_get (''order:'' @ i) st of
             None \<Rightarrow> (c_json (error_body ''Order not found'') 404, st)
           | Some existing \<Rightarrow>
               if \<not> truthy existing then (c_json (error_body ''Order not found'') 404, st)
               else (let updatedOrder = merged_record existing updates i (toISOString e 0)
                     in (c_json (JObj [(''order'', updatedOrder)]) 200,
                         kv_set (''order:'' @ i) updatedOrder st))))"


text \<open>
  \<open>app.post('/categories')\<close>: \<open>category.id || crypto.randomUUID()\<close>, then
  \<open>{...category, id, updatedAt}\<close>. Reading \<open>category.id\<close> of a body that is \<open>null\<close>
  throws.
\<close>

definition categories_post ::
  "env \<Rightarrow> string option \<Rightarrow> json option \<Rightarrow> kv_store \<Rightarrow> response \<times> kv_store" where
  "categories_post e authorization reqBody st =
     (if unauthorized e authorization then (respond_401, st)
      else case reqBody of
        None \<Rightarrow> (c_json (error_body ''Failed to create category'') 500, st)
      | Some JNull \<Rightarrow> (c_json (error_body ''Failed to create category'') 500, st)
      | Some category' \<Rightarrow>
          (let i = (case property category' ''id'' of
                      None \<Rightarrow> JStr (randomUUID e 0)
                    | Some v \<Rightarrow> if truthy v then v else JStr (randomUUID e 0));
               newCategory = JObj (AList.update ''updatedAt'' (JStr (toISOString e 0))
                                    (AList.update ''id'' i (assign [] category')))
           in (c_json (JObj [(''category'', newCategory)]) 200,
               kv_set (template e ''category:'' i) newCategory st)))"

text \<open>
  \<open>app.put('/categories/:id/toggle')\<close>:
  \<open>{...existing, active: !existing.active, updatedAt}\<close>
\<close>

definition categories_toggle :: "env \<Rightarrow> string option \<Rightarrow> string \<Rightarrow> kv_store \<Rightarrow> response \<times> kv_store" where
  "categories_toggle e authorization i st =
     (if unauthorized e authorization then (respond_401, st)
      else case kv_get (''category:'' @ i) st of
        None \<Rightarrow> (c_json (error_body ''Category not found'') 404, st)
      | Some existing \<Rightarrow>
          if \<not> truthy existing then (c_json (error_body ''Category not found'') 404, st)
          else (let updatedCategory =
                      JObj (AList.update ''updatedAt'' (JStr (toISOString e 0))
                             (AList.update ''active''
                                (JBool (\<not> truthy_opt (property existing ''active'')))
                                (assign [] existing)))
                in (c_json (JObj [(''category'', updatedCategory)]) 200,
                    kv_set (''category:'' @ i) updatedCategory st)))"

text \<open>\<open>app.delete('/categories/:id')\<close>\<close>

definition categories_delete :: "env \<Rightarrow> string option \<Rightarrow> string \<Rightarrow> kv_store \<Rightarrow> response \<times> kv_store" where
  "categories_delete e authorization i st =
     (if unauthorized e authorization then (respond_401, st)
      else (c_json (JObj [(''success'', JBool True)]) 200, kv_del (''category:'' @ i) st))"

text \<open>A template literal over a property that may be \<open>undefined\<close>.\<close>

definition template_opt :: "env \<Rightarrow> string \<Rightarrow> json option \<Rightarrow> string" where
  "template_opt e pre v = (case v of None \<Rightarrow> pre @ ''undefined'' | Some x \<Rightarrow> template e pre x)"

text \<open>
  \<open>app.post('/categories/:categoryName/add-products')\<close>. The object literal
  \<open>productsByCategory\<close> (sample products listed under five category names) is the
  parameter \<open>productsByCategory\<close>: the products under a name, \<open>None\<close> for a name it
  does not list. The \<open>k\<close>-th product takes the \<open>k\<close>-th identifier and two time stamps.
\<close>

definition add_product :: "env \<Rightarrow> nat \<times> json \<Rightarrow> kv_store \<times> json list \<Rightarrow> kv_store \<times> json list" where
  "add_product e kp acc =
     (let i = randomUUID e (fst kp);
          newProduct = with_id_created_updated (snd kp) i
                         (toISOString e (2 * fst kp)) (toISOString e (2 * fst kp + 1))
      in (kv_set (''product:'' @ i) newProduct (fst acc), snd acc @ [newProduct]))"

definition add_products ::
  "env \<Rightarrow> (string \<Rightarrow> json list option) \<Rightarrow> string option \<Rightarrow> string \<Rightarrow> kv_store
     \<Rightarrow> response \<times> kv_store" where
  "add_products e productsByCategory authorization categoryName st =
     (if unauthorized e authorization then (respond_401, st)
      else case productsByCategory categoryName of
        None \<Rightarrow> (c_json (error_body ''Invalid category name'') 400, st)
      | Some categoryProducts \<Rightarrow>
          (let r = fold (add_product e) (List.enumerate 0 categoryProducts) (st, [])
           in (c_json (JObj [(''success'', JBool True),
                             (''count'', JNum (of_nat (length (snd r)))),
                             (''products'', JArr (snd r))]) 200,
               fst r)))"

text \<open>The loop \<open>for (const x of xs) await kv.set(`pre${x.id}`, x)\<close>.\<close>

definition set_each :: "env \<Rightarrow> string \<Rightarrow> json list \<Rightarrow> kv_store \<Rightarrow> kv_store" where
  "set_each e pre xs st = fold (\<lambda>x. kv_set (template_opt e pre (property x ''id'')) x) xs st"

text \<open>
  \<open>app.post('/init-sample-data')\<close>. The array literal \<open>sampleProducts\<close> is the
  parameter \<open>sampleProducts\<close>: for each product its properties other than \<open>id\<close>,
  \<open>createdAt\<close> and \<open>updatedAt\<close>, which the handler computes. The handler has no
  authorization test.
\<close>

definition sample_product :: "env \<Rightarrow> nat \<times> (string \<times> json) list \<Rightarrow> json" where
  "sample_product e kf =
     JObj ((''id'', JStr (randomUUID e (fst kf))) # snd kf @
           [(''createdAt'', JStr (toISOString e (2 * fst kf))),
            (''updatedAt'', JStr (toISOString e (2 * fst kf + 1)))])"

definition default_location :: "env \<Rightarrow> nat \<Rightarrow> string \<Rightarrow> rat \<Rightarrow> string \<Rightarrow> json" where
  "default_location e k n c r =
     JObj [(''id'', JStr (randomUUID e k)), (''name'', JStr n), (''cost'', JNum c), (''region'', JStr r)]"

definition defaultLocations :: "env \<Rightarrow> json list" where
  "defaultLocations e =
     [default_location e 0 ''Nairobi CBD'' 0 ''Nairobi'',
      default_location e 1 ''Westlands'' 0 ''Nairobi'',
      default_location e 2 ''Karen'' 0 ''Nairobi'',
      default_location e 3 ''Kilimani'' 0 ''Nairobi'',
      default_location e 4 ''Machakos Town'' 0 ''Machakos'',
      default_location e 5 ''Athi River'' 0 ''Machakos'',
      default_location e 6 ''Kisumu'' 500 ''Kisumu'',
      default_location e 7 ''Mombasa'' 600 ''Mombasa'',
      default_location e 8 ''Nakuru'' 400 ''Nakuru'',
      default_location e 9 ''Eldoret'' 550 ''Eldoret'']"

definition init_sample_data ::
  "env \<Rightarrow> (string \<times> json) list list \<Rightarrow> kv_store \<Rightarrow> response \<times> kv_store" where
  "init_sample_data e sampleProducts st =
     (if length (kv_getByPrefix ''product:'' st) = 0
      then (c_json (JObj [(''success'', JBool True),
                          (''count'', JNum (of_nat (length sampleProducts)))]) 200,
            set_each e ''product:'' (map (sample_product e) (List.enumerate 0 sampleProducts)) st)
      else (c_json (JObj [(''success'', JBool True), (''message'', JStr ''Products already exist'')]) 200,
            if length (kv_getByPrefix ''delivery:'' st) = 0
            then set_each e ''delivery:'' (defaultLocations e) st
            else st))"

text \<open>\<open>app.post('/init-categories')\<close>. The handler has no authorization test.\<close>

definition default_category :: "env \<Rightarrow> nat \<Rightarrow> string \<Rightarrow> string \<Rightarrow> string list \<Rightarrow> json" where
  "default_category e k n d subs =
     JObj [(''id'', JStr (randomUUID e k)), (''name'', JStr n), (''description'', JStr d),
           (''active'', JBool True), (''subcategories'', JArr (map JStr subs)),
           (''createdAt'', JStr (toISOString e (2 * k))),
           (''updatedAt'', JStr (toISOString e (2 * k + 1)))]"

definition defaultCategories :: "env \<Rightarrow> json list" where
  "defaultCategories e =
     [default_category e 0 ''Footwear'' ''Shoes, boots, sandals, and all types of footwear''
        [''Ballet Flats'', ''Canvas Sneakers'', ''Slip-On Flats'', ''Loafers'', ''Mules'', ''Espadrilles'',
         ''Wellington Boots'', ''Flip Flops'', ''Pumps'', ''Kitten Heels'', ''Stilettos'', ''Block Heels'',
         ''Ankle Strap Heels'', ''Mary Janes'', ''Oxfords'', ''Brogues'', ''Gladiator Sandals'',
         ''T-Strap Heels'', ''Peep Toe Shoes'', ''Slingback Heels'', ''Wedge Sandals'', ''Chunky Heels'',
         ''Platform Shoes'', ''Ankle Boots'', ''Chelsea Boots'', ''Combat Boots'', ''Knee-High Boots'',
         ''Over-the-Knee Boots'', ''Snow Boots'',
         ''Sneakers'', ''Boat Shoes'', ''Casual Boots'', ''Derby Shoes'', ''Monk Strap Shoes'',
         ''Cap Toe Shoes'', ''Wingtip Shoes'', ''Chukka Boots'', ''Desert Boots'', ''Work Boots'',
         ''Hiking Boots'', ''Penny Loafers'', ''Tassel Loafers'', ''Athletic Shoes''],
      default_category e 1 ''Clothes'' ''Clothing for men, women, and children''
        [''T-Shirts'', ''Shirts'', ''Pants'', ''Dresses'', ''Jackets'', ''Sweaters'', ''Jeans''],
      default_category e 2 ''Essentials'' ''Daily essentials and necessities''
        [''Toiletries'', ''Personal Care'', ''Household Items'', ''Stationery''],
      default_category e 3 ''Appliances'' ''Home and kitchen appliances''
        [''Kitchen Appliances'', ''Home Appliances'', ''Small Appliances''],
      default_category e 4 ''Electronics'' ''Electronic devices and gadgets''
        [''Phones'', ''Laptops'', ''Tablets'', ''Accessories'', ''Audio Devices'']]"

definition init_categories :: "env \<Rightarrow> kv_store \<Rightarrow> response \<times> kv_store" where
  "init_categories e st =
     (if length (kv_getByPrefix ''category:'' st) = 0
      then (c_json (JObj [(''success'', JBool True),
                          (''count'', JNum (of_nat (length (defaultCategories e))))]) 200,
            set_each e ''category:'' (defaultCategories e) st)
      else (c_json (JObj [(''success'', JBool True), (''message'', JStr ''Categories already exist'')]) 200,
            st))"

text \<open>
  The routes whose handler starts with the authorization test (the source marks them
  \<open>protected\<close>), each with what the request carries besides the header.
\<close>

datatype 'f protected_request =
    PostProducts "json option"
  | PutProducts string "json option"
  | DeleteProducts string
  | UploadImage "'f option option" bool "string option"
  | PostDeliveryLocations "json option"
  | PutDeliveryLocations string "json option"
  | DeleteDeliveryLocations string
  | PutOrders string "json option"
  | PostCategories "json option"
  | PutCategoriesToggle string
  | DeleteCategories string
  | PostAddProducts string

fun handle_protected ::
  "env \<Rightarrow> (string \<Rightarrow> json list option) \<Rightarrow> string option \<Rightarrow> 'f protected_request \<Rightarrow> kv_store
     \<Rightarrow> response \<times> kv_store" where
  "handle_protected e tbl h (PostProducts b) st = products_post e h b st"
| "handle_protected e tbl h (PutProducts i b) st = products_put e h i b st"
| "handle_protected e tbl h (DeleteProducts i) st = products_delete e h i st"
| "handle_protected e tbl h (UploadImage fd err url) st = upload_image e h fd err url st"
| "handle_protected e tbl h (PostDeliveryLocations b) st = delivery_locations_post e h b st"
| "handle_protected e tbl h (PutDeliveryLocations i b) st = delivery_locations_put e h i b st"
| "handle_protected e tbl h (DeleteDeliveryLocations i) st = delivery_locations_delete e h i st"
| "handle_protected e tbl h (PutOrders i b) st = orders_put e h i b st"
| "handle_protected e tbl h (PostCategories b) st = categories_post e h b st"
| "handle_protected e tbl h (PutCategoriesToggle i) st = categories_toggle e h i st"
| "handle_protected e tbl h (DeleteCategories i) st = categories_delete e h i st"
| "handle_protected e tbl h (PostAddProducts n) st = add_products e tbl h n st"

section \<open>Admin console: deleting a category\<close>

text \<open>
  \<open>deleteCategory\<close> of CategoryManagement: nothing is sent unless the administrator
  confirms; the request carries \<open>Bearer ${accessToken}\<close>. The result is the store after it.
\<close>

definition deleteCategory :: "env \<Rightarrow> string \<Rightarrow> bool \<Rightarrow> string \<Rightarrow> kv_store \<Rightarrow> kv_store" where
  "deleteCategory e token confirmed i st =
     (if \<not> confirmed then st
      else snd (categories_delete e (Some (''Bearer '' @ token)) i st))"

text \<open>
  The delete button of a category card: \<open>disabled={category.active}\<close> and
  \<open>onClick={() => deleteCategory(category.id)}\<close>. A disabled button does not call its
  handler.
\<close>

definition delete_button_click :: "env \<Rightarrow> string \<Rightarrow> bool \<Rightarrow> Category \<Rightarrow> kv_store \<Rightarrow> kv_store" where
  "delete_button_click e token confirmed c st =
     (if active c then st else deleteCategory e token confirmed (Category.id' c) st)"

section \<open>StoreFront: loading the active categories\<close>

text \<open>
  \<open>loadCategories\<close> stores \<open>data.categories\<close> of \<open>GET /categories/active\<close> as
  \<open>Category[]\<close>. TypeScript converts nothing; this function says which record a JSON
  object of the shape of the interface is. A string property of another shape reads as
  the empty string. \<open>subcategories\<close> is absent when the property is falsy, and is
  otherwise the strings that \<open>flatMap\<close> takes from it: only a string can be equal to
  the category of a product.
\<close>

definition string_of_json :: "json option \<Rightarrow> string" where
  "string_of_json v = (case v of Some (JStr s) \<Rightarrow> s | _ \<Rightarrow> [])"

definition strings_of_json :: "json option \<Rightarrow> string list option" where
  "strings_of_json v =
     (case v of
        None \<Rightarrow> None
      | Some x \<Rightarrow>
          if \<not> truthy x then None
          else Some (case x of
                       JArr xs \<Rightarrow> concat (map (\<lambda>y. case y of JStr s \<Rightarrow> [s] | _ \<Rightarrow> []) xs)
                     | JStr s \<Rightarrow> [s]
                     | _ \<Rightarrow> []))"

definition category_of_json :: "json \<Rightarrow> Category" where
  "category_of_json j =
     \<lparr>Category.id' = string_of_json (property j ''id''),
      Category.name = string_of_json (property j ''name''),
      Category.description = string_of_json (property j ''description''),
      active = truthy_opt (property j ''active''),
      subcategories = strings_of_json (property j ''subcategories'')\<rparr>"


section \<open>Concrete inputs\<close>

text \<open>A cart line of price 1000 and quantity 2.\<close>

definition runner_line :: CartItem where
  "runner_line =
     \<lparr>Product.id' = ''p1'', Product.name = ''Urban Runner Pro'', Product.description = [],
      price = 1000, category = ''Athletic Shoes'', sizes = [Num 7, Num 8], colors = [''Black''],
      imageUrl = [], stock = 50, featured = True,
      quantity = 2, selectedSize = Num 7, selectedColor = ''Black''\<rparr>"

text \<open>
  An active category created without subcategories, as the form of the admin console
  sends it (\<open>subcategories: []\<close>), and a product whose category is that category's
  name, as the product form offers it for such a category.
\<close>

definition books_category :: Category where
  "books_category =
     \<lparr>Category.id' = ''c1'', Category.name = ''Books'', Category.description = ''Books and magazines'',
      active = True, subcategories = Some []\<rparr>"

definition atlas_product :: Product where
  "atlas_product =
     \<lparr>Product.id' = ''p7'', Product.name = ''World Atlas'', Product.description = ''Maps'',
      price = 2500, category = ''Books'', sizes = [], colors = [],
      imageUrl = [], stock = 3, featured = False\<rparr>"

text \<open>
  An identity provider that knows one administrator's token, identifiers \<open>uuid-0\<close>,
  \<open>uuid-1\<close>, ..., a clock that stands at 1 March 2025, a date parser that knows
  three dates, and the sort of V8.
\<close>

definition admin_env :: env where
  "admin_env =
     \<lparr>getUser = (\<lambda>t. if t = Some ''admin-token''
                       then \<lparr>user = Some (JObj [(''email'', JStr ''admin@shop.example'')]), error = None\<rparr>
                       else \<lparr>user = None, error = Some ''invalid JWT''\<rparr>),
      randomUUID = (\<lambda>n. ''uuid-'' @ string_of_nat n),
      toISOString = (\<lambda>n. ''2025-03-01T00:00:00.000Z''),
      getTime = (\<lambda>v. case v of
                         Some (JStr s) \<Rightarrow> map_of [(''2025-01-01T00:00:00.000Z'', 1735689600000),
                                                  (''2025-01-02T00:00:00.000Z'', 1735776000000),
                                                  (''2025-03-01T00:00:00.000Z'', 1740787200000)] s
                       | _ \<Rightarrow> None),
      toString = (\<lambda>v. ''[object Object]''),
      sort' = v8_sort\<rparr>"

text \<open>A stored record, kept both as a product and as an order.\<close>

definition boots_record :: json where
  "boots_record =
     JObj [(''id'', JStr ''p1''), (''name'', JStr ''Heritage Leather Boots''), (''price'', JNum 12500),
           (''updatedAt'', JStr ''2025-01-01T00:00:00.000Z'')]"

definition boots_store :: kv_store where
  "boots_store = [(''product:p1'', boots_record), (''order:p1'', boots_record)]"

text \<open>A store with three orders and one product.\<close>

definition order_of :: "string \<Rightarrow> string \<Rightarrow> json" where
  "order_of i t = JObj [(''id'', JStr i), (''status'', JStr ''pending''), (''createdAt'', JStr t)]"

definition orders_store :: kv_store where
  "orders_store =
     [(''order:a'', order_of ''a'' ''2025-01-01T00:00:00.000Z''),
      (''product:p1'', boots_record),
      (''order:b'', order_of ''b'' ''2025-03-01T00:00:00.000Z''),
      (''order:c'', order_of ''c'' ''2025-01-02T00:00:00.000Z'')]"

text \<open>Three stored categories, two of them active, beside one product.\<close>

definition clothes_json :: json where
  "clothes_json =
     JObj [(''name'', JStr ''Clothes''), (''description'', JStr ''Clothing for men, women, and children''),
           (''subcategories'', JArr [JStr ''T-Shirts'', JStr ''Jeans'']), (''active'', JBool True),
           (''id'', JStr ''c1''), (''updatedAt'', JStr ''2025-01-01T00:00:00.000Z'')]"

definition toys_json :: json where
  "toys_json =
     JObj [(''name'', JStr ''Toys''), (''description'', JStr ''Games and toys''),
           (''subcategories'', JArr []), (''active'', JBool False),
           (''id'', JStr ''c2''), (''updatedAt'', JStr ''2025-01-02T00:00:00.000Z'')]"

definition footwear_json :: json where
  "footwear_json =
     JObj [(''name'', JStr ''Footwear''), (''description'', JStr ''Shoes and boots''),
           (''subcategories'', JArr [JStr ''Athletic Shoes'', JStr ''Oxfords'']), (''active'', JBool True),
           (''id'', JStr ''c3''), (''updatedAt'', JStr ''2025-01-02T00:00:00.000Z'')]"

definition categories_store :: kv_store where
  "categories_store =
     [(''category:c1'', clothes_json), (''product:p1'', boots_record),
      (''category:c2'', toys_json), (''category:c3'', footwear_json)]"



text \<open>The same categories as the admin console holds them.\<close>

definition clothes_category :: Category where
  "clothes_category = category_of_json clothes_json"

definition toys_category :: Category where
  "toys_category = category_of_json toys_json"




text \<open>
  Three orders, and the second of them after \<open>PUT /orders/x\<close> with the payload
  \<open>{createdAt: 'not-a-date'}\<close>.
\<close>

definition three_orders_store :: kv_store where
  "three_orders_store =
     [(''order:a'', order_of ''a'' ''2025-01-01T00:00:00.000Z''),
      (''order:x'', order_of ''x'' ''2025-01-02T00:00:00.000Z''),
      (''order:b'', order_of ''b'' ''2025-03-01T00:00:00.000Z'')]"

definition garbled_order :: json where
  "garbled_order =
     JObj [(''id'', JStr ''x''), (''status'', JStr ''pending''), (''createdAt'', JStr ''not-a-date''),
           (''updatedAt'', JStr ''2025-03-01T00:00:00.000Z'')]"

section \<open>CheckoutDialog: the amounts\<close>

lemma fold_add_sum: "fold (\<lambda>x s. s + f x) xs (a::rat) = a + sum_list (map f xs)"
  by (induction xs arbitrary: a) (simp_all add: add.assoc)

text \<open>
  C1. For every cart and every selected delivery location (or none), the subtotal is the
  sum over the lines of price times quantity, the tax is 0.08 times the subtotal, the
  delivery cost is the cost of the selected location (0 when none is selected) and the
  total is subtotal + delivery cost + tax. For a cart of one line of price 1000 and
  quantity 2 with delivery cost 0, the subtotal is 2000, the tax 160 and the total 2160.
  Amounts are exact rationals here; the rounding of IEEE doubles is not modelled.
\<close>

theorem checkout_amounts:
  "subtotal cart = sum_list (map (\<lambda>item. Product.price item * of_int (quantity item)) cart)
   \<and> tax cart = (8 / 100) * subtotal cart
   \<and> total cart loc = subtotal cart + deliveryCost loc + tax cart
   \<and> deliveryCost loc = (case loc of None \<Rightarrow> 0 | Some l \<Rightarrow> cost l)
   \<and> (Product.price item = 1000 \<and> quantity item = 2 \<and> deliveryCost loc = 0 \<longrightarrow>
        subtotal [item] = 2000 \<and> tax [item] = 160 \<and> total [item] loc = 2160)"
proof -
  have s: "subtotal c = sum_list (map (\<lambda>item. Product.price item * of_int (quantity item)) c)" for c
    unfolding subtotal_def by (simp add: fold_add_sum)
  have d: "deliveryCost loc = (case loc of None \<Rightarrow> 0 | Some l \<Rightarrow> cost l)"
    unfolding deliveryCost_def by (simp split: option.split)
  show ?thesis
    using s d by (simp add: tax_def total_def)
qed

theorem checkout_amounts_witness:
  "Product.price runner_line = 1000 \<and> quantity runner_line = 2 \<and> deliveryCost None = 0
   \<and> subtotal [runner_line] = 2000 \<and> tax [runner_line] = 160 \<and> total [runner_line] None = 2160"
  using checkout_amounts [of "[runner_line]" None runner_line]
  by (simp add: runner_line_def deliveryCost_def)

section \<open>StoreFront: the cart\<close>

text \<open>
  What \<open>addToCart\<close> does: when a line of the cart is \<open>===\<close>-equal in product id,
  size and color, the quantity of every such line grows by 1 and the cart keeps its
  length; otherwise a line of quantity 1 is appended.
\<close>

lemma addToCart_existing:
  assumes "\<exists>item \<in> set cart. same_line (Product.id' p) sz c item"
  shows "addToCart p sz c cart =
           map (\<lambda>item. if same_line (Product.id' p) sz c item
                        then item\<lparr>quantity := quantity item + 1\<rparr> else item) cart"
proof -
  from assms have "find (same_line (Product.id' p) sz c) cart \<noteq> None"
    by (auto simp add: find_None_iff)
  then show ?thesis
    unfolding addToCart_def by (auto split: option.split)
qed

lemma addToCart_new:
  assumes "\<forall>item \<in> set cart. \<not> same_line (Product.id' p) sz c item"
  shows "addToCart p sz c cart = cart @ [Product.extend p (CartItem.fields 1 sz c)]"
  using assms unfolding addToCart_def by (auto simp add: find_None_iff split: option.split)

text \<open>With a size that is a number, adding twice to the empty cart gives one line of quantity 2.\<close>

lemma addToCart_twice_Num:
  "addToCart p (Num n) c (addToCart p (Num n) c []) = [Product.extend p (CartItem.fields 2 (Num n) c)]"
  by (simp add: addToCart_def same_line_def Product.extend_def CartItem.fields_def)

text \<open>
  C2. The claim is that adding the same (product id, size, color) twice to an empty cart
  yields exactly one line with quantity 2. With the size \<open>NaN\<close>, which is what
  \<open>parseInt\<close> makes of the size labels \<open>'S'\<close>, \<open>'M'\<close> or \<open>'Standard'\<close> of the
  server's own sample products, the code yields two lines of quantity 1 each:
  \<open>item.selectedSize === size\<close> is false when both are \<open>NaN\<close>.
\<close>

theorem addToCart_twice_NaN:
  "addToCart p NaN c (addToCart p NaN c []) =
     [Product.extend p (CartItem.fields 1 NaN c), Product.extend p (CartItem.fields 1 NaN c)]
   \<and> map quantity (addToCart p NaN c (addToCart p NaN c [])) = [1, 1]"
  by (simp add: addToCart_def same_line_def Product.extend_def CartItem.fields_def)

section \<open>StoreFront: filtering and sorting\<close>

lemma mset_insert_sorted: "mset (insert_sorted cmp x xs) = add_mset x (mset xs)"
  by (induction xs) simp_all

lemma mset_array_sort: "mset (array_sort cmp xs) = mset xs"
  unfolding array_sort_def by (induction xs) (simp_all add: mset_insert_sorted)

lemma set_array_sort: "set (array_sort cmp xs) = set xs"
  using mset_array_sort [of cmp xs] by (metis set_mset_mset)

lemma set_activeSubcategories:
  "s \<in> set (activeSubcategories cs) \<longleftrightarrow>
     (\<exists>c \<in> set cs. case subcategories c of Some subs \<Rightarrow> s \<in> set subs | None \<Rightarrow> s = Category.name c)"
  unfolding activeSubcategories_def by (auto split: option.splits)

lemma filterProducts_no_search:
  "filterProducts lc ps cs [] ''all'' pr =
     filter (\<lambda>p. Product.category p \<in> set (activeSubcategories cs)
                 \<and> fst pr \<le> Product.price p \<and> Product.price p \<le> snd pr) ps"
  unfolding filterProducts_def by (simp add: conj_commute)

lemma set_filterAndSortProducts:
  "set (filterAndSortProducts lc cmp ps cs q cf sortBy pr) = set (filterProducts lc ps cs q cf pr)"
  unfolding filterAndSortProducts_def by (simp add: set_array_sort Let_def)

text \<open>
  What the filter does with an empty search query and the category filter \<open>all\<close>: a
  product is in the result exactly when it is in the list, its price is in the range, and
  some category of the list names its category among its subcategories, or has no
  \<open>subcategories\<close> property and has the product's category as its name.
\<close>

lemma storefront_membership:
  "p \<in> set (filterAndSortProducts lc cmp ps cs [] ''all'' sortBy (lo, hi)) \<longleftrightarrow>
     p \<in> set ps \<and> lo \<le> Product.price p \<and> Product.price p \<le> hi \<and>
     (\<exists>c \<in> set cs. case subcategories c of
                       Some subs \<Rightarrow> Product.category p \<in> set subs
                     | None \<Rightarrow> Product.category p = Category.name c)"
  by (auto simp add: set_filterAndSortProducts filterProducts_no_search set_activeSubcategories)

text \<open>
  C3. The claim is that a product is shown when its category equals the name of an
  active category that has no subcategories. For an active category whose list of
  subcategories is empty, the code shows no such product: \<open>c.subcategories || [c.name]\<close>
  is the empty array, which is truthy. The product form of the admin console does offer
  the category's name for such a category (\<open>subcategories.length > 0 ? ... : name\<close>).
\<close>

theorem empty_subcategories_hide_product:
  "active books_category \<and> subcategories books_category = Some []
   \<and> Product.category atlas_product = Category.name books_category
   \<and> 0 \<le> Product.price atlas_product \<and> Product.price atlas_product \<le> 50000
   \<and> filterAndSortProducts lc cmp [atlas_product] [books_category] [] ''all'' sortBy (0, 50000) = []"
proof -
  have "set (filterAndSortProducts lc cmp [atlas_product] [books_category] [] ''all'' sortBy (0, 50000)) = {}"
    by (simp add: set_filterAndSortProducts filterProducts_no_search activeSubcategories_def
        books_category_def)
  then show ?thesis
    by (simp add: books_category_def atlas_product_def)
qed

lemma insert_sorted_featured:
  "insert_sorted featured_compare x (filter featured xs @ filter (\<lambda>p. \<not> featured p) xs) =
     (if featured x then x # filter featured xs @ filter (\<lambda>p. \<not> featured p) xs
      else filter featured xs @ x # filter (\<lambda>p. \<not> featured p) xs)"
proof (cases "featured x")
  case True
  then have "insert_sorted featured_compare x ys = x # ys" for ys
    by (cases ys) (simp_all add: featured_compare_def)
  with True show ?thesis by simp
next
  case False
  have skip: "insert_sorted featured_compare x (fs @ ns) = fs @ insert_sorted featured_compare x ns"
    if "\<forall>p \<in> set fs. featured p" for fs ns
    using that False by (induction fs) (simp_all add: featured_compare_def)
  have stop: "insert_sorted featured_compare x ns = x # ns"
    if "\<forall>p \<in> set ns. \<not> featured p" for ns
    using that False by (cases ns) (simp_all add: featured_compare_def)
  from False show ?thesis
    by (simp add: skip stop)
qed

lemma array_sort_featured:
  "array_sort featured_compare xs = filter featured xs @ filter (\<lambda>p. \<not> featured p) xs"
proof (induction xs)
  case Nil
  show ?case by (simp add: array_sort_def)
next
  case (Cons x xs)
  have "array_sort featured_compare (x # xs) =
          insert_sorted featured_compare x (array_sort featured_compare xs)"
    by (simp add: array_sort_def)
  with Cons show ?case
    by (simp add: insert_sorted_featured)
qed

text \<open>
  C8. In the sort mode \<open>featured\<close> the result is the stable partition of the filtered
  products: the featured ones in their order, then the others in their order. The same
  holds of the sort on any list, and the filtered products are themselves in the order
  of the product list.
\<close>

theorem featured_sort_stable_partition:
  "filterAndSortProducts lc cmp products categories q cf ''featured'' pr =
     filter featured (filterProducts lc products categories q cf pr)
     @ filter (\<lambda>p. \<not> featured p) (filterProducts lc products categories q cf pr)
   \<and> array_sort featured_compare xs = filter featured xs @ filter (\<lambda>p. \<not> featured p) xs
   \<and> subseq (filterProducts lc products categories q cf pr) products"
proof -
  have "subseq (filterProducts lc products categories q cf pr) products"
    unfolding filterProducts_def Let_def
    by (auto intro: subseq_order.order_trans [OF subseq_filter_left])
  then show ?thesis
    by (simp add: filterAndSortProducts_def array_sort_featured Let_def)
qed

section \<open>Server side: store, authorization and object literals\<close>

lemma kv_get_set: "kv_get k (kv_set k' v st) = (if k = k' then Some v else kv_get k st)"
  by (simp add: kv_get_def kv_set_def update_conv')

lemma kv_get_del: "kv_get k (kv_del k' st) = (if k = k' then None else kv_get k st)"
  by (simp add: kv_get_def kv_del_def delete_conv')

lemma authorized_admin: "\<not> unauthorized admin_env (Some ''Bearer admin-token'')"
  by (simp add: unauthorized_def accessToken_def at_index_def admin_env_def)

lemma unauthorized_anon: "unauthorized admin_env (Some ''Bearer anon-key'')" "unauthorized admin_env None"
  by (simp_all add: unauthorized_def accessToken_def at_index_def admin_env_def)

lemma map_of_rev_distinct: "distinct (map fst xs) \<Longrightarrow> map_of (rev xs) = map_of xs"
proof (induction xs)
  case Nil
  show ?case by simp
next
  case (Cons x xs)
  then have "fst x \<notin> dom (map_of xs)"
    by (simp add: dom_map_of_conv_image_fst)
  with Cons show ?case
    by (cases x) (auto simp add: map_add_def fun_eq_iff split: option.split)
qed

lemma fold_update_distinct:
  "distinct (map fst t) \<Longrightarrow> distinct (map fst (fold (\<lambda>kv. AList.update (fst kv) (snd kv)) src t))"
  by (induction src arbitrary: t) (simp_all add: distinct_update)

lemma fold_update_map_of:
  "map_of (fold (\<lambda>kv. AList.update (fst kv) (snd kv)) src t) = map_of t ++ map_of (rev src)"
  by (induction src arbitrary: t) (simp_all add: update_conv')

lemma distinct_assign: "distinct (map fst t) \<Longrightarrow> distinct (map fst (assign t v))"
  unfolding assign_def by (rule fold_update_distinct)

lemma map_of_assign:
  "map_of (assign t v) k = (case own v k of Some x \<Rightarrow> Some x | None \<Rightarrow> map_of t k)"
  unfolding assign_def own_def by (simp add: fold_update_map_of map_add_def)

lemma property_distinct: "distinct (map fst fs) \<Longrightarrow> property (JObj fs) k = map_of fs k"
  by (simp add: map_of_rev_distinct)

text \<open>What a spread copies from an object is the object's properties.\<close>

lemma own_object: "own (JObj fs) k = property (JObj fs) k"
  by (simp add: own_def)

lemma property_merged_record:
  "property (merged_record existing updates i t) k =
     (if k = ''updatedAt'' then Some (JStr t)
      else if k = ''id'' then Some (JStr i)
      else case own updates k of
             Some v \<Rightarrow> Some v
           | None \<Rightarrow> own existing k)"
proof -
  have "distinct (map fst (AList.update ''updatedAt'' (JStr t)
            (AList.update ''id'' (JStr i) (assign (assign [] existing) updates))))"
    by (intro distinct_update distinct_assign) simp
  then show ?thesis
    unfolding merged_record_def
    by (simp add: property_distinct update_conv' map_of_assign del: property.simps split: option.split)
qed

section \<open>Server side: orders\<close>

text \<open>
  C9. For every body that \<open>c.req.json()\<close> parses, \<open>POST /orders\<close> answers 200
  with an order that it also stores under \<open>order:\<close> followed by the generated
  identifier; the order's \<open>id\<close> is that identifier and its \<open>status\<close> is
  \<open>pending\<close>, whatever \<open>id\<close> and \<open>status\<close> the body carries.
\<close>

theorem orders_post_pending:
  "\<exists>newOrder.
     orders_post e (Some order) st =
       (c_json (JObj [(''order'', newOrder)]) 200, kv_set (''order:'' @ randomUUID e 0) newOrder st)
     \<and> kv_get (''order:'' @ randomUUID e 0) (snd (orders_post e (Some order) st)) = Some newOrder
     \<and> property newOrder ''id'' = Some (JStr (randomUUID e 0))
     \<and> property newOrder ''status'' = Some (JStr ''pending'')"
proof -
  have "distinct (map fst (AList.update ''createdAt'' (JStr (toISOString e 0))
            (AList.update ''status'' (JStr ''pending'')
              (AList.update ''id'' (JStr (randomUUID e 0)) (assign [] order)))))"
    by (intro distinct_update distinct_assign) simp
  then show ?thesis
    by (simp add: orders_post_def Let_def kv_get_set property_distinct update_conv'
        del: property.simps)
qed

text \<open>A body that supplies an \<open>id\<close> and the status \<open>delivered\<close>.\<close>

lemma orders_post_example:
  "orders_post admin_env (Some (JObj [(''id'', JStr ''mine''), (''status'', JStr ''delivered''), (''total'', JNum 2160)])) []
   = (c_json (JObj [(''order'', JObj [(''id'', JStr ''uuid-0''), (''status'', JStr ''pending''), (''total'', JNum 2160), (''createdAt'', JStr ''2025-03-01T00:00:00.000Z'')])]) 200,
      [(''order:uuid-0'', JObj [(''id'', JStr ''uuid-0''), (''status'', JStr ''pending''), (''total'', JNum 2160), (''createdAt'', JStr ''2025-03-01T00:00:00.000Z'')])])"
  by (simp add: orders_post_def Let_def admin_env_def kv_set_def string_of_nat.simps digit_char_def assign_def)


section \<open>Server side: updating a record\<close>

text \<open>
  C7, as amended. With a valid token, a body that parses and a stored record that is
  truthy, \<open>PUT /products/:id\<close> and \<open>PUT /orders/:id\<close> answer 200 and replace
  the stored record by a record whose \<open>id\<close> is the path id, whose \<open>updatedAt\<close> is
  the server's time, and whose every other property is the payload's where the payload
  has it and the stored record's where it has not.
\<close>

theorem put_merges_record:
  assumes "\<not> unauthorized e h"
  shows "(kv_get (''product:'' @ i) st = Some existing \<and> truthy existing \<longrightarrow>
           (\<exists>updated.
              products_put e h i (Some updates) st =
                (c_json (JObj [(''product'', updated)]) 200, kv_set (''product:'' @ i) updated st)
              \<and> kv_get (''product:'' @ i) (snd (products_put e h i (Some updates) st)) = Some updated
              \<and> property updated ''id'' = Some (JStr i)
              \<and> property updated ''updatedAt'' = Some (JStr (toISOString e 0))
              \<and> (\<forall>k. k \<noteq> ''id'' \<and> k \<noteq> ''updatedAt'' \<longrightarrow>
                    property updated k =
                      (case own updates k of Some v \<Rightarrow> Some v | None \<Rightarrow> own existing k))))
       \<and> (kv_get (''order:'' @ i) st = Some existing \<and> truthy existing \<longrightarrow>
           (\<exists>updated.
              orders_put e h i (Some updates) st =
                (c_json (JObj [(''order'', updated)]) 200, kv_set (''order:'' @ i) updated st)
              \<and> kv_get (''order:'' @ i) (snd (orders_put e h i (Some updates) st)) = Some updated
              \<and> property updated ''id'' = Some (JStr i)
              \<and> property updated ''updatedAt'' = Some (JStr (toISOString e 0))
              \<and> (\<forall>k. k \<noteq> ''id'' \<and> k \<noteq> ''updatedAt'' \<longrightarrow>
                    property updated k =
                      (case own updates k of Some v \<Rightarrow> Some v | None \<Rightarrow> own existing k))))"
  using assms
  by (simp add: products_put_def orders_put_def Let_def kv_get_set property_merged_record)

theorem put_merges_record_witness:
  "\<not> unauthorized admin_env (Some ''Bearer admin-token'')
   \<and> kv_get (''product:'' @ ''p1'') boots_store = Some boots_record
   \<and> kv_get (''order:'' @ ''p1'') boots_store = Some boots_record
   \<and> truthy boots_record
   \<and> products_put admin_env (Some ''Bearer admin-token'') ''p1''
        (Some (JObj [(''id'', JStr ''other''), (''price'', JNum 9900)])) boots_store =
      (c_json (JObj [(''product'',
           JObj [(''id'', JStr ''p1''), (''name'', JStr ''Heritage Leather Boots''), (''price'', JNum 9900),
                 (''updatedAt'', JStr ''2025-03-01T00:00:00.000Z'')])]) 200,
       [(''product:p1'',
           JObj [(''id'', JStr ''p1''), (''name'', JStr ''Heritage Leather Boots''), (''price'', JNum 9900),
                 (''updatedAt'', JStr ''2025-03-01T00:00:00.000Z'')]),
        (''order:p1'', boots_record)])
   \<and> orders_put admin_env (Some ''Bearer admin-token'') ''p1''
        (Some (JObj [(''id'', JStr ''other''), (''price'', JNum 9900)])) boots_store =
      (c_json (JObj [(''order'',
           JObj [(''id'', JStr ''p1''), (''name'', JStr ''Heritage Leather Boots''), (''price'', JNum 9900),
                 (''updatedAt'', JStr ''2025-03-01T00:00:00.000Z'')])]) 200,
       [(''product:p1'', boots_record),
        (''order:p1'',
           JObj [(''id'', JStr ''p1''), (''name'', JStr ''Heritage Leather Boots''), (''price'', JNum 9900),
                 (''updatedAt'', JStr ''2025-03-01T00:00:00.000Z'')])])"
proof -
  have a: "\<not> unauthorized admin_env (Some ''Bearer admin-token'')"
    by (rule authorized_admin)
  have g: "kv_get (''product:'' @ ''p1'') boots_store = Some boots_record"
          "kv_get (''order:'' @ ''p1'') boots_store = Some boots_record"
    by (simp_all add: kv_get_def boots_store_def)
  have t: "truthy boots_record"
    by (simp add: boots_record_def)
  have n: "toISOString admin_env 0 = ''2025-03-01T00:00:00.000Z''"
    by (simp add: admin_env_def)
  have m: "merged_record boots_record (JObj [(''id'', JStr ''other''), (''price'', JNum 9900)]) ''p1''
             ''2025-03-01T00:00:00.000Z'' =
           JObj [(''id'', JStr ''p1''), (''name'', JStr ''Heritage Leather Boots''), (''price'', JNum 9900),
                 (''updatedAt'', JStr ''2025-03-01T00:00:00.000Z'')]"
    by (simp add: merged_record_def assign_def boots_record_def)
  have s: "kv_set ''product:p1'' v boots_store = [(''product:p1'', v), (''order:p1'', boots_record)]"
          "kv_set ''order:p1'' v boots_store = [(''product:p1'', boots_record), (''order:p1'', v)]" for v
    by (simp_all add: kv_set_def boots_store_def)
  show ?thesis
    using put_merges_record [OF a, of "''p1''" boots_store boots_record
        "JObj [(''id'', JStr ''other''), (''price'', JNum 9900)]"] a g t
    by (simp add: products_put_def orders_put_def Let_def n m s)
qed

text \<open>
  The claim as stated fails at \<open>updatedAt\<close>: the payload \<open>{price: 9900}\<close> has
  no such property, the stored record has it, and the update changes it.
\<close>

theorem put_changes_updatedAt_counterexample:
  "\<not> unauthorized admin_env (Some ''Bearer admin-token'')
   \<and> kv_get ''product:p1'' boots_store = Some boots_record
   \<and> own (JObj [(''price'', JNum 9900)]) ''updatedAt'' = None
   \<and> property boots_record ''updatedAt'' = Some (JStr ''2025-01-01T00:00:00.000Z'')
   \<and> products_put admin_env (Some ''Bearer admin-token'') ''p1''
        (Some (JObj [(''price'', JNum 9900)])) boots_store =
      (c_json (JObj [(''product'',
           JObj [(''id'', JStr ''p1''), (''name'', JStr ''Heritage Leather Boots''), (''price'', JNum 9900),
                 (''updatedAt'', JStr ''2025-03-01T00:00:00.000Z'')])]) 200,
       [(''product:p1'',
           JObj [(''id'', JStr ''p1''), (''name'', JStr ''Heritage Leather Boots''), (''price'', JNum 9900),
                 (''updatedAt'', JStr ''2025-03-01T00:00:00.000Z'')]),
        (''order:p1'', boots_record)])"
proof -
  have t: "toISOString admin_env 0 = ''2025-03-01T00:00:00.000Z''"
    by (simp add: admin_env_def)
  have g: "kv_get ''product:p1'' boots_store = Some boots_record"
    by (simp add: kv_get_def boots_store_def)
  have b: "truthy boots_record" "property boots_record ''updatedAt'' = Some (JStr ''2025-01-01T00:00:00.000Z'')"
    by (simp_all add: boots_record_def)
  have m: "merged_record boots_record (JObj [(''price'', JNum 9900)]) ''p1'' ''2025-03-01T00:00:00.000Z'' =
           JObj [(''id'', JStr ''p1''), (''name'', JStr ''Heritage Leather Boots''), (''price'', JNum 9900),
                 (''updatedAt'', JStr ''2025-03-01T00:00:00.000Z'')]"
    by (simp add: merged_record_def assign_def boots_record_def)
  have s: "kv_set ''product:p1'' v boots_store = [(''product:p1'', v), (''order:p1'', boots_record)]" for v
    by (simp add: kv_set_def boots_store_def)
  show ?thesis
    using authorized_admin
    by (simp add: products_put_def Let_def g b t m s own_def)
qed

section \<open>Server side: listing the orders\<close>

lemma set_insert_sorted: "set (insert_sorted cmp x xs) = insert x (set xs)"
  by (induction xs) auto

lemma sorted_insert_sorted:
  assumes "sorted_wrt (\<lambda>a b. key b \<le> (key a :: int)) xs"
    and "\<forall>y \<in> set xs. cmp x y \<le> 0 \<longleftrightarrow> key y \<le> key x"
  shows "sorted_wrt (\<lambda>a b. key b \<le> key a) (insert_sorted cmp x xs)"
  using assms
proof (induction xs)
  case Nil
  show ?case by simp
next
  case (Cons y ys)
  show ?case
  proof (cases "cmp x y \<le> 0")
    case True
    with Cons.prems show ?thesis by auto
  next
    case False
    with Cons show ?thesis by (auto simp add: set_insert_sorted)
  qed
qed

lemma sorted_array_sort:
  assumes "\<forall>x \<in> set xs. \<forall>y \<in> set xs. cmp x y \<le> 0 \<longleftrightarrow> key y \<le> (key x :: int)"
  shows "sorted_wrt (\<lambda>a b. key b \<le> key a) (array_sort cmp xs)"
  using assms
proof (induction xs)
  case Nil
  show ?case by (simp add: array_sort_def)
next
  case (Cons x xs)
  have step: "array_sort cmp (x # xs) = insert_sorted cmp x (array_sort cmp xs)"
    by (simp add: array_sort_def)
  from Cons have "sorted_wrt (\<lambda>a b. key b \<le> key a) (array_sort cmp xs)"
    by simp
  moreover from Cons.prems have "\<forall>y \<in> set (array_sort cmp xs). cmp x y \<le> 0 \<longleftrightarrow> key y \<le> key x"
    by (simp add: set_array_sort)
  ultimately show ?case
    unfolding step by (rule sorted_insert_sorted)
qed

lemma orders_compare_le:
  assumes "getTime e (property x ''createdAt'') = Some tx"
    and "getTime e (property y ''createdAt'') = Some ty"
  shows "orders_compare e x y \<le> 0 \<longleftrightarrow> ty \<le> tx"
  using assms by (simp add: orders_compare_def)

text \<open>
  The sort of V8 is a sort as ECMAScript requires: with a comparator that is consistent
  on the elements, the first run and the binary insertions give the stable sorted order.
\<close>

lemma insert_sorted_insort_key:
  assumes "\<forall>y \<in> set ys. compareFn x y \<le> 0 \<longleftrightarrow> key x \<le> (key y :: int)"
  shows "insert_sorted compareFn x ys = insort_key key x ys"
  using assms by (induction ys) simp_all

lemma array_sort_sort_key:
  assumes "\<forall>a \<in> set xs. \<forall>b \<in> set xs. compareFn a b \<le> 0 \<longleftrightarrow> key a \<le> (key b :: int)"
  shows "array_sort compareFn xs = sort_key key xs"
  using assms
proof (induction xs)
  case Nil
  show ?case by (simp add: array_sort_def)
next
  case (Cons x xs)
  then have "array_sort compareFn xs = sort_key key xs"
    by simp
  moreover have "array_sort compareFn (x # xs) = insert_sorted compareFn x (array_sort compareFn xs)"
    by (simp add: array_sort_def)
  moreover from Cons.prems have "\<forall>y \<in> set (sort_key key xs). compareFn x y \<le> 0 \<longleftrightarrow> key x \<le> key y"
    by simp
  ultimately show ?case
    by (simp add: insert_sorted_insort_key)
qed

lemma find_slot_correct:
  assumes "sorted (map key ys)"
    and "\<forall>y \<in> set ys. compareFn p y < 0 \<longleftrightarrow> key p < (key y :: int)"
    and "left \<le> right" and "right \<le> length ys"
    and "\<forall>i<left. key (ys ! i) \<le> key p"
    and "\<forall>i. right \<le> i \<and> i < length ys \<longrightarrow> key p < key (ys ! i)"
  shows "find_slot compareFn p ys left right \<le> length ys
         \<and> (\<forall>i < find_slot compareFn p ys left right. key (ys ! i) \<le> key p)
         \<and> (\<forall>i. find_slot compareFn p ys left right \<le> i \<and> i < length ys \<longrightarrow> key p < key (ys ! i))"
  using assms
proof (induction compareFn p ys left right rule: find_slot.induct)
  case (1 compareFn pivot workArray left right)
  let ?mid = "left + (right - left) div 2"
  have mono: "key (workArray ! i) \<le> key (workArray ! j)" if "i \<le> j" "j < length workArray" for i j
    using sorted_nth_mono [OF "1.prems"(1), of i j] that by simp
  show ?case
  proof (cases "left < right")
    case False
    then have "find_slot compareFn pivot workArray left right = left"
      by (subst find_slot.simps) simp
    with False "1.prems" show ?thesis
      by simp
  next
    case True
    then have mid: "left \<le> ?mid" "?mid < right" "?mid < length workArray"
      using "1.prems"(4) by auto
    show ?thesis
    proof (cases "compareFn pivot (workArray ! ?mid) < 0")
      case less: True
      with mid "1.prems"(2) have k: "key pivot < key (workArray ! ?mid)"
        by (metis nth_mem)
      have "\<forall>i. ?mid \<le> i \<and> i < length workArray \<longrightarrow> key pivot < key (workArray ! i)"
        using k mono by (meson less_le_trans)
      with "1.IH"(1) [OF True refl less "1.prems"(1,2) mid(1) _ "1.prems"(5)] mid
      have "find_slot compareFn pivot workArray left ?mid \<le> length workArray
         \<and> (\<forall>i < find_slot compareFn pivot workArray left ?mid. key (workArray ! i) \<le> key pivot)
         \<and> (\<forall>i. find_slot compareFn pivot workArray left ?mid \<le> i \<and> i < length workArray
                \<longrightarrow> key pivot < key (workArray ! i))"
        by simp
      moreover from True less have "find_slot compareFn pivot workArray left right =
          find_slot compareFn pivot workArray left ?mid"
        by (subst find_slot.simps) (simp add: Let_def)
      ultimately show ?thesis
        by simp
    next
      case geq: False
      with mid "1.prems"(2) have k: "key (workArray ! ?mid) \<le> key pivot"
        by (metis nth_mem not_less)
      have "\<forall>i < ?mid + 1. key (workArray ! i) \<le> key pivot"
        using k mono mid(3) by (metis Suc_eq_plus1 less_Suc_eq_le order_trans)
      with "1.IH"(2) [OF True refl geq "1.prems"(1,2) _ "1.prems"(4) _ "1.prems"(6)] mid
      have "find_slot compareFn pivot workArray (?mid + 1) right \<le> length workArray
         \<and> (\<forall>i < find_slot compareFn pivot workArray (?mid + 1) right. key (workArray ! i) \<le> key pivot)
         \<and> (\<forall>i. find_slot compareFn pivot workArray (?mid + 1) right \<le> i \<and> i < length workArray
                \<longrightarrow> key pivot < key (workArray ! i))"
        by simp
      moreover from True geq have "find_slot compareFn pivot workArray left right =
          find_slot compareFn pivot workArray (?mid + 1) right"
        by (subst find_slot.simps) (simp add: Let_def)
      ultimately show ?thesis
        by simp
    qed
  qed
qed


lemma binary_insert_sort_key:
  assumes "\<forall>y \<in> set pre. compareFn p y < 0 \<longleftrightarrow> key p < (key y :: int)"
  shows "binary_insert compareFn p (sort_key key pre) = sort_key key (pre @ [p])"
proof -
  let ?ys = "sort_key key pre"
  let ?r = "find_slot compareFn p ?ys 0 (length ?ys)"
  have slot: "?r \<le> length ?ys \<and> (\<forall>i < ?r. key (?ys ! i) \<le> key p)
      \<and> (\<forall>i. ?r \<le> i \<and> i < length ?ys \<longrightarrow> key p < key (?ys ! i))"
    using assms by (intro find_slot_correct) simp_all
  have low: "key y \<le> key p" if "y \<in> set (take ?r ?ys)" for y
  proof -
    from that obtain i where "i < length (take ?r ?ys)" "take ?r ?ys ! i = y"
      by (auto simp add: in_set_conv_nth)
    with slot show ?thesis by auto
  qed
  have high: "key p < key y" if "y \<in> set (drop ?r ?ys)" for y
  proof -
    from that obtain i where "i < length (drop ?r ?ys)" "drop ?r ?ys ! i = y"
      by (auto simp add: in_set_conv_nth)
    with slot show ?thesis by auto
  qed
  have parts: "take ?r ?ys @ drop ?r ?ys = ?ys"
    by simp
  have "sorted_wrt (\<lambda>x y. key x \<le> key y) ?ys"
    using sorted_sort_key [of key pre] by (simp add: sorted_map)
  then have "sorted_wrt (\<lambda>x y. key x \<le> key y) (take ?r ?ys)"
    and "sorted_wrt (\<lambda>x y. key x \<le> key y) (drop ?r ?ys)"
    by (rule sorted_wrt_take, rule sorted_wrt_drop)
  then have srt: "sorted (map key (take ?r ?ys @ p # drop ?r ?ys))"
    using low high by (fastforce simp add: sorted_map sorted_wrt_append)
  have stable: "filter (\<lambda>x. key k = key x) (take ?r ?ys @ p # drop ?r ?ys) =
      filter (\<lambda>x. key k = key x) (pre @ [p])" for k
  proof -
    have whole: "filter (\<lambda>x. key k = key x) (take ?r ?ys) @ filter (\<lambda>x. key k = key x) (drop ?r ?ys) =
        filter (\<lambda>x. key k = key x) pre"
      using sort_key_stable [of key "key k" pre] parts
      by (metis (mono_tags, lifting) filter_append filter_cong)
    show ?thesis
    proof (cases "key k = key p")
      case True
      then have "filter (\<lambda>x. key k = key x) (drop ?r ?ys) = []"
        using high by (fastforce simp add: filter_empty_conv)
      with whole True show ?thesis by simp
    next
      case False
      with whole show ?thesis by simp
    qed
  qed
  have "mset (take ?r ?ys) + mset (drop ?r ?ys) = mset pre"
    by (metis parts mset_append mset_sort)
  then have perm: "mset (take ?r ?ys @ p # drop ?r ?ys) = mset (pre @ [p])"
    by simp
  have "sort_key key (pre @ [p]) = take ?r ?ys @ p # drop ?r ?ys"
    using perm stable srt by (rule properties_for_sort_key)
  then show ?thesis
    by (simp add: binary_insert_def Let_def)
qed

lemma fold_binary_insert_sort_key:
  assumes "\<forall>a \<in> set (pre @ rest). \<forall>b \<in> set (pre @ rest). compareFn a b < 0 \<longleftrightarrow> key a < (key b :: int)"
  shows "fold (binary_insert compareFn) rest (sort_key key pre) = sort_key key (pre @ rest)"
  using assms
proof (induction rest arbitrary: pre)
  case Nil
  show ?case by simp
next
  case (Cons p rest)
  have "binary_insert compareFn p (sort_key key pre) = sort_key key (pre @ [p])"
    using Cons.prems by (intro binary_insert_sort_key) simp
  moreover have "fold (binary_insert compareFn) rest (sort_key key (pre @ [p])) =
      sort_key key ((pre @ [p]) @ rest)"
    using Cons.prems by (intro Cons.IH) simp
  ultimately show ?case by simp
qed


lemma extend_run_ascending:
  assumes "\<forall>a \<in> set (prev # rest). \<forall>b \<in> set (prev # rest). compareFn a b < 0 \<longleftrightarrow> key a < (key b :: int)"
  shows "sorted (map key (prev # take (extend_run compareFn False prev rest) rest))"
  using assms
proof (induction rest arbitrary: prev)
  case Nil
  show ?case by simp
next
  case (Cons c cs)
  show ?case
  proof (cases "compareFn c prev < 0")
    case True
    then show ?thesis by simp
  next
    case False
    with Cons.prems have "key prev \<le> key c" by auto
    moreover have "sorted (map key (c # take (extend_run compareFn False c cs) cs))"
      using Cons.prems by (intro Cons.IH) simp
    ultimately show ?thesis using False by auto
  qed
qed

lemma extend_run_descending:
  assumes "\<forall>a \<in> set (prev # rest). \<forall>b \<in> set (prev # rest). compareFn a b < 0 \<longleftrightarrow> key a < (key b :: int)"
  shows "sorted_wrt (\<lambda>a b. key b < key a) (prev # take (extend_run compareFn True prev rest) rest)"
  using assms
proof (induction rest arbitrary: prev)
  case Nil
  show ?case by simp
next
  case (Cons c cs)
  show ?case
  proof (cases "compareFn c prev < 0")
    case False
    then show ?thesis by simp
  next
    case True
    with Cons.prems have "key c < key prev" by auto
    moreover have "sorted_wrt (\<lambda>a b. key b < key a) (c # take (extend_run compareFn True c cs) cs)"
      using Cons.prems by (intro Cons.IH) simp
    ultimately show ?thesis using True by fastforce
  qed
qed

lemma insort_key_greatest:
  "\<forall>y \<in> set ys. key y < (key x :: int) \<Longrightarrow> insort_key key x ys = ys @ [x]"
  by (induction ys) auto

lemma sort_key_strictly_descending:
  "sorted_wrt (\<lambda>a b. key b < (key a :: int)) xs \<Longrightarrow> sort_key key xs = rev xs"
  by (induction xs) (simp_all add: insort_key_greatest)

lemma count_and_make_run_sort_key:
  assumes "\<forall>a \<in> set xs. \<forall>b \<in> set xs. compareFn a b < 0 \<longleftrightarrow> key a < (key b :: int)"
  shows "\<exists>n. count_and_make_run compareFn xs = (sort_key key (take n xs), drop n xs)"
proof (cases xs)
  case Nil
  then show ?thesis by simp
next
  case outer: (Cons x0 ys)
  show ?thesis
  proof (cases ys)
    case Nil
    with outer have "count_and_make_run compareFn xs = (sort_key key (take 1 xs), drop 1 xs)"
      by simp
    then show ?thesis ..
  next
    case (Cons x1 rest)
    with outer have xs: "xs = x0 # x1 # rest" by simp
    let ?d = "compareFn x1 x0 < 0"
    let ?n = "2 + extend_run compareFn ?d x1 rest"
    have rel: "\<forall>a \<in> set (x1 # rest). \<forall>b \<in> set (x1 # rest). compareFn a b < 0 \<longleftrightarrow> key a < key b"
      using assms xs by simp
    have run: "take ?n xs = x0 # x1 # take (extend_run compareFn ?d x1 rest) rest"
      by (simp add: xs)
    have unfold: "count_and_make_run compareFn xs =
        (if ?d then rev (take ?n xs) else take ?n xs, drop ?n xs)"
      by (simp add: xs Let_def)
    have "(if ?d then rev (take ?n xs) else take ?n xs) = sort_key key (take ?n xs)"
    proof (cases ?d)
      case True
      with assms xs have "key x1 < key x0" by simp
      moreover from True have "sorted_wrt (\<lambda>a b. key b < key a)
          (x1 # take (extend_run compareFn ?d x1 rest) rest)"
        using extend_run_descending [OF rel] by simp
      ultimately have "sorted_wrt (\<lambda>a b. key b < key a) (take ?n xs)"
        unfolding run by fastforce
      with True show ?thesis
        by (simp only: sort_key_strictly_descending if_True)
    next
      case False
      with assms xs have "key x0 \<le> key x1" by auto
      moreover from False have "sorted (map key (x1 # take (extend_run compareFn ?d x1 rest) rest))"
        using extend_run_ascending [OF rel] by simp
      ultimately have "sorted (map key (take ?n xs))"
        unfolding run by fastforce
      with False show ?thesis
        by (simp only: sort_key_id_if_sorted if_False)
    qed
    then have "count_and_make_run compareFn xs = (sort_key key (take ?n xs), drop ?n xs)"
      by (simp only: unfold)
    then show ?thesis ..
  qed
qed

lemma v8_sort_sort_key:
  assumes "\<forall>a \<in> set xs. \<forall>b \<in> set xs. compareFn a b < 0 \<longleftrightarrow> key a < (key b :: int)"
  shows "v8_sort compareFn xs = sort_key key xs"
proof -
  from count_and_make_run_sort_key [OF assms] obtain n
    where "count_and_make_run compareFn xs = (sort_key key (take n xs), drop n xs)" ..
  then have "v8_sort compareFn xs = fold (binary_insert compareFn) (drop n xs) (sort_key key (take n xs))"
    by (simp add: v8_sort_def)
  also have "\<dots> = sort_key key (take n xs @ drop n xs)"
    using assms by (intro fold_binary_insert_sort_key) simp
  finally show ?thesis by simp
qed

lemma ecmascript_sort_v8_sort: "ecmascript_sort v8_sort"
  unfolding ecmascript_sort_def
proof (intro allI impI)
  fix compareFn :: "'a \<Rightarrow> 'a \<Rightarrow> rat" and xs
  assume "consistent_comparator compareFn (set xs)"
  then obtain key :: "'a \<Rightarrow> int" where key:
    "\<forall>a \<in> set xs. \<forall>b \<in> set xs.
       (compareFn a b < 0 \<longleftrightarrow> key a < key b) \<and> (0 < compareFn a b \<longleftrightarrow> key b < key a)"
    unfolding consistent_comparator_def by blast
  then have "\<forall>a \<in> set xs. \<forall>b \<in> set xs. compareFn a b \<le> 0 \<longleftrightarrow> key a \<le> key b"
    by (meson not_less)
  then have "array_sort compareFn xs = sort_key key xs"
    by (rule array_sort_sort_key)
  moreover from key have "v8_sort compareFn xs = sort_key key xs"
    by (intro v8_sort_sort_key) simp
  ultimately show "v8_sort compareFn xs = array_sort compareFn xs"
    by simp
qed


lemma orders_compare_consistent:
  assumes "\<forall>x \<in> set os. getTime e (property x ''createdAt'') \<noteq> None"
  shows "consistent_comparator (orders_compare e) (set os)"
  unfolding consistent_comparator_def
proof (intro exI [of _ "\<lambda>x. - the (getTime e (property x ''createdAt''))"] ballI)
  fix a b
  assume "a \<in> set os" "b \<in> set os"
  with assms obtain ta tb
    where "getTime e (property a ''createdAt'') = Some ta"
      and "getTime e (property b ''createdAt'') = Some tb"
    by blast
  then show "(orders_compare e a b < 0 \<longleftrightarrow>
        - the (getTime e (property a ''createdAt'')) < - the (getTime e (property b ''createdAt'')))
      \<and> (0 < orders_compare e a b \<longleftrightarrow>
        - the (getTime e (property b ''createdAt'')) < - the (getTime e (property a ''createdAt'')))"
    by (simp add: orders_compare_def)
qed

text \<open>
  C10, as amended. With a valid token, every stored order carrying a \<open>createdAt\<close>
  that is a valid date, and the engine's sort being as ECMAScript requires, \<open>GET /orders\<close>
  answers 200 with all the values stored under the prefix \<open>order:\<close>, each as often as
  it is stored, in descending order of the time of \<open>createdAt\<close>: newest first.
\<close>

theorem orders_get_newest_first:
  assumes "ecmascript_sort (sort' e)"
    and "\<not> unauthorized e h"
    and "\<forall>x \<in> set (kv_getByPrefix ''order:'' st). getTime e (property x ''createdAt'') \<noteq> None"
  shows "\<exists>orders.
           orders_get e h st = c_json (JObj [(''orders'', JArr orders)]) 200
           \<and> mset orders = mset (kv_getByPrefix ''order:'' st)
           \<and> sorted_wrt (\<lambda>a b. the (getTime e (property b ''createdAt''))
                                \<le> the (getTime e (property a ''createdAt''))) orders"
proof -
  let ?os = "kv_getByPrefix ''order:'' st"
  have engine: "sort' e (orders_compare e) ?os = array_sort (orders_compare e) ?os"
    using assms(1) orders_compare_consistent [OF assms(3)]
    unfolding ecmascript_sort_def by blast
  have "\<forall>x \<in> set ?os. \<forall>y \<in> set ?os.
          orders_compare e x y \<le> 0 \<longleftrightarrow>
          the (getTime e (property y ''createdAt'')) \<le> the (getTime e (property x ''createdAt''))"
  proof (intro ballI)
    fix x y
    assume "x \<in> set ?os" "y \<in> set ?os"
    with assms(3) obtain tx ty
      where "getTime e (property x ''createdAt'') = Some tx"
        and "getTime e (property y ''createdAt'') = Some ty"
      by blast
    then show "orders_compare e x y \<le> 0 \<longleftrightarrow>
          the (getTime e (property y ''createdAt'')) \<le> the (getTime e (property x ''createdAt''))"
      by (simp add: orders_compare_le)
  qed
  then have "sorted_wrt (\<lambda>a b. the (getTime e (property b ''createdAt''))
                                \<le> the (getTime e (property a ''createdAt'')))
               (array_sort (orders_compare e) ?os)"
    by (rule sorted_array_sort)
  with assms(2) have
    "orders_get e h st = c_json (JObj [(''orders'', JArr (array_sort (orders_compare e) ?os))]) 200
     \<and> mset (array_sort (orders_compare e) ?os) = mset ?os
     \<and> sorted_wrt (\<lambda>a b. the (getTime e (property b ''createdAt''))
                          \<le> the (getTime e (property a ''createdAt'')))
           (array_sort (orders_compare e) ?os)"
    by (simp add: orders_get_def mset_array_sort engine)
  then show ?thesis
    by (rule exI)
qed

text \<open>The binary search, one step at a time.\<close>

lemma find_slot_eval:
  "find_slot compareFn pivot workArray left right =
     (if left < right
      then (if compareFn pivot (workArray ! (left + (right - left) div 2)) < 0
            then find_slot compareFn pivot workArray left (left + (right - left) div 2)
            else find_slot compareFn pivot workArray (left + (right - left) div 2 + 1) right)
      else left)"
  by (subst find_slot.simps) (simp add: Let_def)

theorem orders_get_newest_first_witness:
  "\<not> unauthorized admin_env (Some ''Bearer admin-token'')
   \<and> kv_getByPrefix ''order:'' orders_store =
       [order_of ''a'' ''2025-01-01T00:00:00.000Z'', order_of ''b'' ''2025-03-01T00:00:00.000Z'',
        order_of ''c'' ''2025-01-02T00:00:00.000Z'']
   \<and> getTime admin_env (property (order_of ''a'' ''2025-01-01T00:00:00.000Z'') ''createdAt'') = Some 1735689600000
   \<and> getTime admin_env (property (order_of ''b'' ''2025-03-01T00:00:00.000Z'') ''createdAt'') = Some 1740787200000
   \<and> getTime admin_env (property (order_of ''c'' ''2025-01-02T00:00:00.000Z'') ''createdAt'') = Some 1735776000000
   \<and> orders_get admin_env (Some ''Bearer admin-token'') orders_store =
       c_json (JObj [(''orders'', JArr [order_of ''b'' ''2025-03-01T00:00:00.000Z'',
                                       order_of ''c'' ''2025-01-02T00:00:00.000Z'',
                                       order_of ''a'' ''2025-01-01T00:00:00.000Z''])]) 200"
proof -
  have a: "\<not> unauthorized admin_env (Some ''Bearer admin-token'')"
    by (rule authorized_admin)
  have g: "ecmascript_sort (sort' admin_env)"
    using ecmascript_sort_v8_sort by (simp add: admin_env_def)
  have p: "kv_getByPrefix ''order:'' orders_store =
             [order_of ''a'' ''2025-01-01T00:00:00.000Z'', order_of ''b'' ''2025-03-01T00:00:00.000Z'',
              order_of ''c'' ''2025-01-02T00:00:00.000Z'']"
    by (simp add: kv_getByPrefix_def orders_store_def)
  have t: "getTime admin_env (property (order_of ''a'' ''2025-01-01T00:00:00.000Z'') ''createdAt'') = Some 1735689600000"
          "getTime admin_env (property (order_of ''b'' ''2025-03-01T00:00:00.000Z'') ''createdAt'') = Some 1740787200000"
          "getTime admin_env (property (order_of ''c'' ''2025-01-02T00:00:00.000Z'') ''createdAt'') = Some 1735776000000"
    by (simp_all add: order_of_def admin_env_def)
  have v: "\<forall>x \<in> set (kv_getByPrefix ''order:'' orders_store).
             getTime admin_env (property x ''createdAt'') \<noteq> None"
    by (simp add: p t)
  have e: "sort' admin_env = v8_sort"
    by (simp add: admin_env_def)
  have s: "v8_sort (orders_compare admin_env)
             [order_of ''a'' ''2025-01-01T00:00:00.000Z'', order_of ''b'' ''2025-03-01T00:00:00.000Z'',
              order_of ''c'' ''2025-01-02T00:00:00.000Z''] =
             [order_of ''b'' ''2025-03-01T00:00:00.000Z'', order_of ''c'' ''2025-01-02T00:00:00.000Z'',
              order_of ''a'' ''2025-01-01T00:00:00.000Z'']"
    by (simp add: v8_sort_def binary_insert_def find_slot_eval orders_compare_def t)
  show ?thesis
    using orders_get_newest_first [OF g a v] a p t
    by (simp add: orders_get_def e s)
qed

text \<open>
  The claim as stated fails once a stored order has a \<open>createdAt\<close> that is not a
  date, which \<open>PUT /orders/:id\<close> stores when the payload carries it. Of three
  orders, the one of 2 January is so updated; \<open>GET /orders\<close> then lists the order of
  1 January before the order of 1 March: every comparison with the invalid date is 0,
  and V8 leaves the three in the order of the store.
\<close>

theorem orders_get_invalid_date_counterexample:
  "\<not> unauthorized admin_env (Some ''Bearer admin-token'')
   \<and> snd (orders_put admin_env (Some ''Bearer admin-token'') ''x''
             (Some (JObj [(''createdAt'', JStr ''not-a-date'')])) three_orders_store) =
       [(''order:a'', order_of ''a'' ''2025-01-01T00:00:00.000Z''),
        (''order:x'', garbled_order),
        (''order:b'', order_of ''b'' ''2025-03-01T00:00:00.000Z'')]
   \<and> orders_get admin_env (Some ''Bearer admin-token'')
        [(''order:a'', order_of ''a'' ''2025-01-01T00:00:00.000Z''),
         (''order:x'', garbled_order),
         (''order:b'', order_of ''b'' ''2025-03-01T00:00:00.000Z'')] =
       c_json (JObj [(''orders'', JArr [order_of ''a'' ''2025-01-01T00:00:00.000Z'',
                                       garbled_order,
                                       order_of ''b'' ''2025-03-01T00:00:00.000Z''])]) 200
   \<and> getTime admin_env (property (order_of ''a'' ''2025-01-01T00:00:00.000Z'') ''createdAt'') = Some 1735689600000
   \<and> getTime admin_env (property (order_of ''b'' ''2025-03-01T00:00:00.000Z'') ''createdAt'') = Some 1740787200000
   \<and> getTime admin_env (property garbled_order ''createdAt'') = None"
proof -
  have a: "\<not> unauthorized admin_env (Some ''Bearer admin-token'')"
    by (rule authorized_admin)
  have t: "getTime admin_env (property (order_of ''a'' ''2025-01-01T00:00:00.000Z'') ''createdAt'') = Some 1735689600000"
          "getTime admin_env (property (order_of ''b'' ''2025-03-01T00:00:00.000Z'') ''createdAt'') = Some 1740787200000"
          "getTime admin_env (property garbled_order ''createdAt'') = None"
    by (simp_all add: order_of_def garbled_order_def admin_env_def)
  have n: "toISOString admin_env 0 = ''2025-03-01T00:00:00.000Z''"
    by (simp add: admin_env_def)
  have g: "kv_get (''order:'' @ ''x'') three_orders_store = Some (order_of ''x'' ''2025-01-02T00:00:00.000Z'')"
    by (simp add: kv_get_def three_orders_store_def)
  have m: "merged_record (order_of ''x'' ''2025-01-02T00:00:00.000Z'')
             (JObj [(''createdAt'', JStr ''not-a-date'')]) ''x'' ''2025-03-01T00:00:00.000Z'' = garbled_order"
    by (simp add: merged_record_def assign_def order_of_def garbled_order_def)
  have u: "snd (orders_put admin_env (Some ''Bearer admin-token'') ''x''
             (Some (JObj [(''createdAt'', JStr ''not-a-date'')])) three_orders_store) =
       [(''order:a'', order_of ''a'' ''2025-01-01T00:00:00.000Z''),
        (''order:x'', garbled_order),
        (''order:b'', order_of ''b'' ''2025-03-01T00:00:00.000Z'')]"
  proof -
    have y: "truthy (order_of ''x'' ''2025-01-02T00:00:00.000Z'')"
      by (simp add: order_of_def)
    have k: "kv_set ''order:x'' garbled_order three_orders_store =
        [(''order:a'', order_of ''a'' ''2025-01-01T00:00:00.000Z''),
         (''order:x'', garbled_order),
         (''order:b'', order_of ''b'' ''2025-03-01T00:00:00.000Z'')]"
      by (simp add: kv_set_def three_orders_store_def)
    show ?thesis
      using a g [simplified]
      by (simp add: orders_put_def Let_def n m y k)
  qed
  have e: "sort' admin_env = v8_sort"
    by (simp add: admin_env_def)
  have s: "v8_sort (orders_compare admin_env)
             [order_of ''a'' ''2025-01-01T00:00:00.000Z'', garbled_order,
              order_of ''b'' ''2025-03-01T00:00:00.000Z''] =
             [order_of ''a'' ''2025-01-01T00:00:00.000Z'', garbled_order,
              order_of ''b'' ''2025-03-01T00:00:00.000Z'']"
    by (simp add: v8_sort_def binary_insert_def find_slot_eval orders_compare_def t)
  have r: "orders_get admin_env (Some ''Bearer admin-token'')
        [(''order:a'', order_of ''a'' ''2025-01-01T00:00:00.000Z''),
         (''order:x'', garbled_order),
         (''order:b'', order_of ''b'' ''2025-03-01T00:00:00.000Z'')] =
       c_json (JObj [(''orders'', JArr [order_of ''a'' ''2025-01-01T00:00:00.000Z'',
                                       garbled_order,
                                       order_of ''b'' ''2025-03-01T00:00:00.000Z''])]) 200"
    using a by (simp add: orders_get_def kv_getByPrefix_def e s)
  from a u r t show ?thesis by simp
qed

section \<open>Server side: which routes ask for a token\<close>

text \<open>
  C6, as amended. Every route that the server marks as protected (creating, updating and
  deleting products and delivery locations, uploading an image, updating an order,
  creating, toggling and deleting a category, adding sample products) answers 401 with
  \<open>{error: 'Unauthorized'}\<close> and leaves the store as it is when the token does not
  validate. The routes \<open>POST /init-sample-data\<close> and \<open>POST /init-categories\<close> are
  not among them: their handlers never read the header.
\<close>

theorem protected_routes_answer_401:
  assumes "unauthorized e h"
  shows "handle_protected e tbl h req st = (respond_401, st)
         \<and> status respond_401 = 401
         \<and> body respond_401 = JObj [(''error'', JStr ''Unauthorized'')]"
  using assms
  by (cases req)
    (simp_all add: products_post_def products_put_def products_delete_def upload_image_def
      delivery_locations_post_def delivery_locations_put_def delivery_locations_delete_def
      orders_put_def categories_post_def categories_toggle_def categories_delete_def
      add_products_def respond_401_def c_json_def error_body_def)

theorem protected_routes_answer_401_witness:
  "unauthorized admin_env (Some ''Bearer anon-key'')
   \<and> handle_protected admin_env (\<lambda>n. None) (Some ''Bearer anon-key'')
        (PostProducts (Some (JObj [(''name'', JStr ''Free Shoes'')])) :: unit protected_request)
        boots_store = (\<lparr>status = 401, body = JObj [(''error'', JStr ''Unauthorized'')]\<rparr>, boots_store)"
  using protected_routes_answer_401 [OF unauthorized_anon(1), of "\<lambda>n. None"
      "PostProducts (Some (JObj [(''name'', JStr ''Free Shoes'')])) :: unit protected_request" boots_store]
    unauthorized_anon(1)
  by (simp add: respond_401_def c_json_def error_body_def)

lemma kv_set_empty: "kv_set k v [] = [(k, v)]"
  by (simp add: kv_set_def)

text \<open>
  The claim as stated fails at the two initialisation routes: with a token that does not
  validate, on an empty store, both answer 200 and write records.
\<close>

theorem init_routes_need_no_token_counterexample:
  "unauthorized admin_env (Some ''Bearer anon-key'')
   \<and> fst (init_categories admin_env []) =
       \<lparr>status = 200, body = JObj [(''success'', JBool True), (''count'', JNum 5)]\<rparr>
   \<and> map fst (snd (init_categories admin_env [])) =
       [''category:uuid-0'', ''category:uuid-1'', ''category:uuid-2'', ''category:uuid-3'', ''category:uuid-4'']
   \<and> init_sample_data admin_env [[(''name'', JStr ''Urban Runner Pro''), (''price'', JNum 8500)]] [] =
       (\<lparr>status = 200, body = JObj [(''success'', JBool True), (''count'', JNum 1)]\<rparr>,
        [(''product:uuid-0'',
          JObj [(''id'', JStr ''uuid-0''), (''name'', JStr ''Urban Runner Pro''), (''price'', JNum 8500),
                (''createdAt'', JStr ''2025-03-01T00:00:00.000Z''),
                (''updatedAt'', JStr ''2025-03-01T00:00:00.000Z'')])])"
proof -
  have u: "randomUUID admin_env 0 = ''uuid-0''" "randomUUID admin_env (Suc 0) = ''uuid-1''"
    "randomUUID admin_env 2 = ''uuid-2''" "randomUUID admin_env 3 = ''uuid-3''"
    "randomUUID admin_env 4 = ''uuid-4''"
    by (simp_all add: admin_env_def string_of_nat.simps digit_char_def)
  have t: "toISOString admin_env n = ''2025-03-01T00:00:00.000Z''" for n
    by (simp add: admin_env_def)
  have c: "map fst (snd (init_categories admin_env [])) =
       [''category:uuid-0'', ''category:uuid-1'', ''category:uuid-2'', ''category:uuid-3'', ''category:uuid-4'']"
    by (simp add: init_categories_def kv_getByPrefix_def set_each_def defaultCategories_def
        default_category_def template_opt_def kv_set_def u)
  have r: "fst (init_categories admin_env []) =
       \<lparr>status = 200, body = JObj [(''success'', JBool True), (''count'', JNum 5)]\<rparr>"
    by (simp add: init_categories_def kv_getByPrefix_def defaultCategories_def c_json_def)
  have s: "init_sample_data admin_env [[(''name'', JStr ''Urban Runner Pro''), (''price'', JNum 8500)]] [] =
       (\<lparr>status = 200, body = JObj [(''success'', JBool True), (''count'', JNum 1)]\<rparr>,
        [(''product:uuid-0'',
          JObj [(''id'', JStr ''uuid-0''), (''name'', JStr ''Urban Runner Pro''), (''price'', JNum 8500),
                (''createdAt'', JStr ''2025-03-01T00:00:00.000Z''),
                (''updatedAt'', JStr ''2025-03-01T00:00:00.000Z'')])])"
    by (simp add: init_sample_data_def kv_getByPrefix_def set_each_def sample_product_def
        template_opt_def kv_set_def c_json_def u t)
  from unauthorized_anon(1) c r s show ?thesis by simp
qed


section \<open>Deleting a category\<close>

text \<open>
  C5, as amended. The admin console blocks the deletion of an active category: its delete
  button is disabled, the click sends nothing and the store stays as it is. For a
  category that is not active, a confirmed click with a valid token removes the record
  and nothing else. The route \<open>DELETE /categories/:id\<close> itself does not look at the
  \<open>active\<close> flag: with a valid token it answers 200 and removes the record.
\<close>

theorem delete_category_blocked_by_console:
  "(active c \<longrightarrow> delete_button_click e token confirmed c st = st)
   \<and> (\<not> unauthorized e (Some (''Bearer '' @ token)) \<longrightarrow>
        (\<not> active c \<and> confirmed \<longrightarrow>
           kv_get (''category:'' @ Category.id' c) (delete_button_click e token confirmed c st) = None
           \<and> (\<forall>k. k \<noteq> ''category:'' @ Category.id' c \<longrightarrow>
                 kv_get k (delete_button_click e token confirmed c st) = kv_get k st))
        \<and> categories_delete e (Some (''Bearer '' @ token)) i st =
            (c_json (JObj [(''success'', JBool True)]) 200, kv_del (''category:'' @ i) st)
        \<and> kv_get (''category:'' @ i) (kv_del (''category:'' @ i) st) = None)"
  by (simp add: delete_button_click_def deleteCategory_def categories_delete_def kv_get_del)

theorem delete_category_blocked_by_console_witness:
  "active clothes_category \<and> \<not> active toys_category
   \<and> \<not> unauthorized admin_env (Some (''Bearer '' @ ''admin-token''))
   \<and> delete_button_click admin_env ''admin-token'' True clothes_category categories_store = categories_store
   \<and> delete_button_click admin_env ''admin-token'' True toys_category categories_store =
       [(''category:c1'', clothes_json), (''product:p1'', boots_record), (''category:c3'', footwear_json)]"
proof -
  have a: "active clothes_category" "\<not> active toys_category"
    "Category.id' toys_category = ''c2''"
    by (simp_all add: clothes_category_def toys_category_def category_of_json_def clothes_json_def
        toys_json_def truthy_opt_def string_of_json_def)
  have u: "\<not> unauthorized admin_env (Some (''Bearer '' @ ''admin-token''))"
    using authorized_admin by simp
  have d: "kv_del ''category:c2'' categories_store =
      [(''category:c1'', clothes_json), (''product:p1'', boots_record), (''category:c3'', footwear_json)]"
    by (simp add: kv_del_def categories_store_def)
  show ?thesis
    using delete_category_blocked_by_console [of clothes_category admin_env "''admin-token''" True
        categories_store "''c2''"]
      delete_category_blocked_by_console [of toys_category admin_env "''admin-token''" True
        categories_store "''c2''"] a u d
    by (simp add: delete_button_click_def deleteCategory_def)
qed

text \<open>
  The claim as stated fails for a request sent to the route: the active category
  \<open>c1\<close> is deleted.
\<close>

theorem delete_active_category_counterexample:
  "\<not> unauthorized admin_env (Some ''Bearer admin-token'')
   \<and> kv_get ''category:c1'' categories_store = Some clothes_json
   \<and> property clothes_json ''active'' = Some (JBool True)
   \<and> categories_delete admin_env (Some ''Bearer admin-token'') ''c1'' categories_store =
       (\<lparr>status = 200, body = JObj [(''success'', JBool True)]\<rparr>,
        [(''product:p1'', boots_record), (''category:c2'', toys_json), (''category:c3'', footwear_json)])"
  using authorized_admin
  by (simp add: categories_delete_def kv_del_def kv_get_def categories_store_def clothes_json_def
      c_json_def)


section \<open>Toggling a category\<close>










end
